theory Spec2Isabelle
  imports Complex_Main "HOL-Library.Signed_Division"
begin

section \<open>Types and constants\<close>

text \<open>
  The editor component (\<^verbatim>\<open>HexMapEditor\<close>, the TypeScript file of the repository) and the
  geometry helper of its older JavaScript variant. JavaScript numbers are modelled as
  follows: tile coordinates and tiers are integers (\<^typ>\<open>int\<close>), pixel quantities are
  real numbers (\<^typ>\<open>real\<close>, so IEEE rounding is abstracted away), \<^verbatim>\<open>Infinity\<close> in the
  hit tester is the value \<open>None\<close> of an option. The record fields carry a prefix where the
  source's field name (\<^verbatim>\<open>q\<close>, \<^verbatim>\<open>r\<close>, \<^verbatim>\<open>id\<close>, \<^verbatim>\<open>map\<close>, ...) would clash with a HOL constant or
  with a variable name.
\<close>

datatype Orientation = Pointy | Flat

record Hex =
  hex_q :: int
  hex_r :: int
  hex_id :: string
  hex_asset :: string
  hex_terrain :: string
  hex_tier :: int

record SpawnPoint =
  sp_q :: int
  sp_r :: int

text \<open>
  \<^verbatim>\<open>MapData\<close>: the optional keys \<^verbatim>\<open>spawnPoints?\<close> and \<^verbatim>\<open>worldTree?\<close> are options; \<open>None\<close>
  is an absent key (\<^verbatim>\<open>undefined\<close>, which \<^verbatim>\<open>JSON.stringify\<close> leaves out).
\<close>

record MapData =
  md_hexSize :: real
  md_orientation :: Orientation
  md_map :: "Hex list"
  md_spawnPoints :: "SpawnPoint list option"
  md_worldTree :: "SpawnPoint option"

definition SQRT3 :: real where
  "SQRT3 = sqrt 3"

text \<open>
  The remainder operator \<^verbatim>\<open>%\<close> of JavaScript on integers: the result has the sign of the
  dividend. That is \<open>smod\<close> of the library, \<open>k smod l = sgn k * (\<bar>k\<bar> mod \<bar>l\<bar>)\<close>.
\<close>

definition js_rem :: "int \<Rightarrow> int \<Rightarrow> int" where
  "js_rem a b = a smod b"

section \<open>Geometry helpers\<close>

text \<open>\<^verbatim>\<open>axialToPixel\<close> of the TypeScript editor: the stagger term reads the original \<open>r\<close>.\<close>

definition axialToPixel ::
  "int \<Rightarrow> int \<Rightarrow> real \<Rightarrow> Orientation \<Rightarrow> bool \<Rightarrow> bool \<Rightarrow> bool \<Rightarrow> int \<Rightarrow> real \<times> real" where
  "axialToPixel q r size' orientation rect' stagger' mirror' maxR' =
     (let rr = (if mirror' then maxR' - r else r) in
      if orientation = Pointy then
        (let baseX = size' * SQRT3 * (if rect' then of_int q else of_int q + of_int rr / 2);
             y = size' * 1.5 * of_int rr;
             x = (if stagger' then baseX + (of_int (js_rem r 2) * SQRT3 * size') / 2 else baseX)
         in (x, y))
      else
        (let baseY = size' * SQRT3 * (if rect' then of_int rr else of_int rr + of_int q / 2);
             x = size' * 1.5 * of_int q;
             y = (if stagger' then baseY + (of_int (js_rem q 2) * SQRT3 * size') / 2 else baseY)
         in (x, y)))"

text \<open>
  \<^verbatim>\<open>axialToPixel\<close> of the JavaScript variant of the editor: the same function, but the
  stagger term of the pointy branch reads the mirrored row \<open>rr\<close>.
\<close>

definition axialToPixel_jsx ::
  "int \<Rightarrow> int \<Rightarrow> real \<Rightarrow> Orientation \<Rightarrow> bool \<Rightarrow> bool \<Rightarrow> bool \<Rightarrow> int \<Rightarrow> real \<times> real" where
  "axialToPixel_jsx q r size' orientation rect' stagger' mirror' maxR' =
     (let rr = (if mirror' then maxR' - r else r) in
      if orientation = Pointy then
        (let baseX = size' * SQRT3 * (if rect' then of_int q else of_int q + of_int rr / 2);
             y = size' * 1.5 * of_int rr;
             x = (if stagger' then baseX + (of_int (js_rem rr 2) * SQRT3 * size') / 2 else baseX)
         in (x, y))
      else
        (let baseY = size' * SQRT3 * (if rect' then of_int rr else of_int rr + of_int q / 2);
             x = size' * 1.5 * of_int q;
             y = (if stagger' then baseY + (of_int (js_rem q 2) * SQRT3 * size') / 2 else baseY)
         in (x, y)))"

text \<open>
  The stagger offset a call contributes: the coordinate of the cross axis (\<open>x\<close> for pointy,
  \<open>y\<close> for flat) with stagger on, minus the same coordinate with stagger off.
\<close>

definition crossAxis :: "Orientation \<Rightarrow> real \<times> real \<Rightarrow> real" where
  "crossAxis orientation p = (if orientation = Pointy then fst p else snd p)"

definition staggerOffset ::
  "int \<Rightarrow> int \<Rightarrow> real \<Rightarrow> Orientation \<Rightarrow> bool \<Rightarrow> bool \<Rightarrow> int \<Rightarrow> real" where
  "staggerOffset q r size' orientation rect' mirror' maxR' =
     crossAxis orientation (axialToPixel q r size' orientation rect' True mirror' maxR')
     - crossAxis orientation (axialToPixel q r size' orientation rect' False mirror' maxR')"

definition staggerOffset_jsx ::
  "int \<Rightarrow> int \<Rightarrow> real \<Rightarrow> Orientation \<Rightarrow> bool \<Rightarrow> bool \<Rightarrow> int \<Rightarrow> real" where
  "staggerOffset_jsx q r size' orientation rect' mirror' maxR' =
     crossAxis orientation (axialToPixel_jsx q r size' orientation rect' True mirror' maxR')
     - crossAxis orientation (axialToPixel_jsx q r size' orientation rect' False mirror' maxR')"

section \<open>Editor state\<close>

text \<open>
  The state of the \<^verbatim>\<open>HexMapEditor\<close> component: its \<^verbatim>\<open>useState\<close> cells and its \<^verbatim>\<open>useRef\<close>
  cells, under the names of the source. Every handler is a function from the state to the
  new state. Two fields log effects that leave the component: \<open>alerts\<close> (the calls of
  \<^verbatim>\<open>alert\<close>, in order) and \<open>fileInputClicks\<close> (the calls of \<^verbatim>\<open>fileRef.current?.click()\<close>).
  A file handle is identified by the name of its file. The zoom factor is left out: no
  handler below reads or writes it.
\<close>

datatype EditMode = Terrain | Spawn | Goal

record Editor =
  data :: "MapData option"
  selected :: "Hex option"
  selectedMultiple :: "string set"
  rect :: bool
  stagger :: bool
  mirror :: bool
  editMode :: EditMode
  spawnPoints :: "SpawnPoint list"
  worldTree :: "SpawnPoint option"
  brushEnabled :: bool
  brushTerrain :: string
  brushTier :: int
  isBrushPainting :: bool
  paintedInStroke :: "string set"
  offset :: "real \<times> real"
  isPanning :: bool
  isDragSelecting :: bool
  start :: "real \<times> real"
  lastFileHandle :: "string option"
  lastFileName :: string
  alerts :: "string list"
  fileInputClicks :: nat

text \<open>The initial values of the state cells, as the component declares them.\<close>

definition initialEditor :: Editor where
  "initialEditor =
     \<lparr>data = None, selected = None, selectedMultiple = {},
      rect = True, stagger = True, mirror = True,
      editMode = Terrain, spawnPoints = [], worldTree = None,
      brushEnabled = False, brushTerrain = ''grass'', brushTier = 0,
      isBrushPainting = False, paintedInStroke = {},
      offset = (0, 0), isPanning = False, isDragSelecting = False, start = (0, 0),
      lastFileHandle = None, lastFileName = ''map.json'',
      alerts = [], fileInputClicks = 0\<rparr>"

text \<open>
  A mouse event. \<open>svgPoint\<close> is the result of \<^verbatim>\<open>mouseToSvg(e)\<close>, which reads the layout of
  the page: \<open>None\<close> when the SVG element is not mounted.
\<close>

record MouseEvent =
  button :: int
  ctrlKey :: bool
  metaKey :: bool
  clientX :: real
  clientY :: real
  svgPoint :: "(real \<times> real) option"

section \<open>File import and export\<close>

text \<open>
  The result of \<^verbatim>\<open>JSON.parse\<close> on a file's text is an option: \<open>None\<close> when it throws.
  \<open>applyParsed\<close> is the sequence of setters both import paths run after a successful
  parse.
\<close>

definition applyParsed :: "MapData \<Rightarrow> Editor \<Rightarrow> Editor" where
  "applyParsed parsed s =
     s\<lparr>data := Some parsed,
       spawnPoints := (case md_spawnPoints parsed of None \<Rightarrow> [] | Some sps \<Rightarrow> sps),
       worldTree := md_worldTree parsed,
       selected := None,
       editMode := Terrain\<rparr>"

text \<open>
  What \<^verbatim>\<open>showOpenFilePicker\<close> and the reads after it come to: the user cancels
  (\<^verbatim>\<open>AbortError\<close>), the picker fails otherwise, or a file is picked, with its name and
  the outcome of reading it (\<open>None\<close>: \<^verbatim>\<open>getFile\<close> or \<^verbatim>\<open>text\<close> rejects; \<open>Some\<close>: the
  result of \<^verbatim>\<open>JSON.parse\<close> on its text).
\<close>

datatype PickerOutcome =
  PickerAbort
| PickerFailure
| Picked string "MapData option option"

definition clickFileInput :: "Editor \<Rightarrow> Editor" where
  "clickFileInput s = s\<lparr>fileInputClicks := Suc (fileInputClicks s)\<rparr>"

definition handleImportClick :: "bool \<Rightarrow> PickerOutcome \<Rightarrow> Editor \<Rightarrow> Editor" where
  "handleImportClick hasPicker outcome s =
     (if hasPicker then
        (case outcome of
           PickerAbort \<Rightarrow> s
         | PickerFailure \<Rightarrow> clickFileInput s
         | Picked name content \<Rightarrow>
             (let s1 = s\<lparr>lastFileHandle := Some name, lastFileName := name\<rparr> in
              case content of
                None \<Rightarrow> clickFileInput s1
              | Some None \<Rightarrow> clickFileInput s1
              | Some (Some parsed) \<Rightarrow> applyParsed parsed s1))
      else clickFileInput s)"

text \<open>
  \<^verbatim>\<open>handleImport\<close>, the change handler of the file input: \<open>None\<close> when no file was chosen,
  else the file's name and the result of \<^verbatim>\<open>JSON.parse\<close> on its text.
\<close>

definition handleImport :: "(string \<times> MapData option) option \<Rightarrow> Editor \<Rightarrow> Editor" where
  "handleImport file s =
     (case file of
        None \<Rightarrow> s
      | Some (name, result) \<Rightarrow>
          (let s1 = s\<lparr>lastFileName := name, lastFileHandle := None\<rparr> in
           case result of
             Some parsed \<Rightarrow> applyParsed parsed s1
           | None \<Rightarrow> s1\<lparr>alerts := alerts s1 @ [''Invalid JSON'']\<rparr>))"

definition getExportData :: "Editor \<Rightarrow> MapData option" where
  "getExportData s =
     (case data s of
        None \<Rightarrow> None
      | Some d \<Rightarrow>
          Some (d\<lparr>md_spawnPoints :=
                     (if length (spawnPoints s) > 0 then Some (spawnPoints s) else None),
                   md_worldTree := worldTree s\<rparr>))"

section \<open>Editing tiles\<close>

text \<open>\<^verbatim>\<open>updateHex(k, v)\<close> is called with the keys \<^verbatim>\<open>terrain\<close>, \<^verbatim>\<open>tier\<close> and \<^verbatim>\<open>asset\<close>.\<close>

datatype HexField = TerrainField string | TierField int | AssetField string

fun setHexField :: "HexField \<Rightarrow> Hex \<Rightarrow> Hex" where
  "setHexField (TerrainField v) h = h\<lparr>hex_terrain := v\<rparr>"
| "setHexField (TierField v) h = h\<lparr>hex_tier := v\<rparr>"
| "setHexField (AssetField v) h = h\<lparr>hex_asset := v\<rparr>"

definition updateHex :: "HexField \<Rightarrow> Editor \<Rightarrow> Editor" where
  "updateHex kv s =
     (case data s of
        None \<Rightarrow> s
      | Some d \<Rightarrow>
          if selectedMultiple s \<noteq> {} then
            (let s1 = s\<lparr>data := Some (d\<lparr>md_map :=
                          map (\<lambda>mapHex. if hex_id mapHex \<in> selectedMultiple s
                                         then setHexField kv mapHex else mapHex) (md_map d)\<rparr>)\<rparr>
             in case selected s of
                  None \<Rightarrow> s1
                | Some sel \<Rightarrow>
                    if hex_id sel \<in> selectedMultiple s
                    then s1\<lparr>selected := Some (setHexField kv sel)\<rparr> else s1)
          else
            (case selected s of
               None \<Rightarrow> s
             | Some sel \<Rightarrow>
                 s\<lparr>data := Some (d\<lparr>md_map :=
                        map (\<lambda>mapHex. if hex_id mapHex = hex_id sel
                                       then setHexField kv mapHex else mapHex) (md_map d)\<rparr>),
                   selected := Some (setHexField kv sel)\<rparr>))"

text \<open>The wheel listener of the canvas; its argument is \<^verbatim>\<open>e.deltaY\<close>.\<close>

definition handleWheel :: "real \<Rightarrow> Editor \<Rightarrow> Editor" where
  "handleWheel deltaY s =
     (let hasSelection = (selected s \<noteq> None \<or> selectedMultiple s \<noteq> {}) in
      if hasSelection \<and> editMode s = Terrain then
        (let delta = (if deltaY > 0 then - 1 else 1);
             baseTier = (case selected s of None \<Rightarrow> 0 | Some sel \<Rightarrow> hex_tier sel);
             newTier = max 0 (min 3 (baseTier + delta))
         in updateHex (TierField newTier) s)
      else s)"

text \<open>
  The tier widget of the side panel, rendered when a tile is selected in terrain mode:
  its own wheel handler, its \<open>-\<close> button and its \<open>+\<close> button.
\<close>

definition tierWidgetWheel :: "real \<Rightarrow> Editor \<Rightarrow> Editor" where
  "tierWidgetWheel deltaY s =
     (case selected s of
        None \<Rightarrow> s
      | Some sel \<Rightarrow>
          if editMode s = Terrain then
            (let delta = (if deltaY > 0 then - 1 else 1);
                 newTier = max 0 (min 3 (hex_tier sel + delta))
             in updateHex (TierField newTier) s)
          else s)"

definition tierWidgetMinus :: "Editor \<Rightarrow> Editor" where
  "tierWidgetMinus s =
     (case selected s of
        None \<Rightarrow> s
      | Some sel \<Rightarrow>
          if editMode s = Terrain
          then updateHex (TierField (max 0 (hex_tier sel - 1))) s else s)"

definition tierWidgetPlus :: "Editor \<Rightarrow> Editor" where
  "tierWidgetPlus s =
     (case selected s of
        None \<Rightarrow> s
      | Some sel \<Rightarrow>
          if editMode s = Terrain
          then updateHex (TierField (min 3 (hex_tier sel + 1))) s else s)"

section \<open>Markers\<close>

definition isSpawnPoint :: "int \<Rightarrow> int \<Rightarrow> Editor \<Rightarrow> bool" where
  "isSpawnPoint q r s = list_ex (\<lambda>sp. sp_q sp = q \<and> sp_r sp = r) (spawnPoints s)"

definition toggleSpawnPoint :: "int \<Rightarrow> int \<Rightarrow> Editor \<Rightarrow> Editor" where
  "toggleSpawnPoint q r s =
     s\<lparr>spawnPoints :=
         (let prev = spawnPoints s in
          case find (\<lambda>sp. sp_q sp = q \<and> sp_r sp = r) prev of
            Some exists \<Rightarrow> filter (\<lambda>sp. \<not> (sp_q sp = q \<and> sp_r sp = r)) prev
          | None \<Rightarrow> prev @ [\<lparr>sp_q = q, sp_r = r\<rparr>])\<rparr>"

definition setWorldTreeAt :: "int \<Rightarrow> int \<Rightarrow> Editor \<Rightarrow> Editor" where
  "setWorldTreeAt q r s =
     (case worldTree s of
        None \<Rightarrow> s\<lparr>worldTree := Some \<lparr>sp_q = q, sp_r = r\<rparr>\<rparr>
      | Some tree \<Rightarrow>
          if sp_q tree = q \<and> sp_r tree = r
          then s\<lparr>worldTree := None\<rparr>
          else s\<lparr>worldTree := Some \<lparr>sp_q = q, sp_r = r\<rparr>\<rparr>)"

section \<open>Selection\<close>

definition handleHexClick :: "Hex \<Rightarrow> MouseEvent \<Rightarrow> Editor \<Rightarrow> Editor" where
  "handleHexClick hex e s =
     (if editMode s = Spawn then toggleSpawnPoint (hex_q hex) (hex_r hex) s
      else if editMode s = Goal then setWorldTreeAt (hex_q hex) (hex_r hex) s
      else if ctrlKey e \<or> metaKey e then
        (let prev = selectedMultiple s;
             seeded = (case selected s of
                         None \<Rightarrow> prev
                       | Some sel \<Rightarrow>
                           if prev = {} \<and> hex_id sel \<noteq> hex_id hex
                           then insert (hex_id sel) prev else prev);
             newSet = (if hex_id hex \<in> seeded
                       then seeded - {hex_id hex} else insert (hex_id hex) seeded)
         in s\<lparr>selectedMultiple := newSet, selected := Some hex\<rparr>)
      else s\<lparr>selectedMultiple := {}, selected := Some hex\<rparr>)"

section \<open>Hit testing\<close>

definition sizePx :: "Editor \<Rightarrow> real" where
  "sizePx s = (case data s of None \<Rightarrow> 1 | Some d \<Rightarrow> md_hexSize d) * 100"

text \<open>
  \<^verbatim>\<open>maxR\<close>: \<^verbatim>\<open>Math.max\<close> over the rows of the tiles, \<open>0\<close> without a document. On an empty
  tile list the source's \<^verbatim>\<open>Math.max()\<close> is \<^verbatim>\<open>-Infinity\<close>; no call of \<^verbatim>\<open>axialToPixel\<close> reads
  it then (each call is made for a tile), and the model returns \<open>0\<close> there.
\<close>

definition maxR :: "Editor \<Rightarrow> int" where
  "maxR s =
     (case data s of
        None \<Rightarrow> 0
      | Some d \<Rightarrow> (case map hex_r (md_map d) of [] \<Rightarrow> 0 | x # xs \<Rightarrow> fold max xs x))"

text \<open>
  The body of the loop of \<^verbatim>\<open>findHexAtPoint\<close> first computes the centre of the tile and
  its distance to the point.
\<close>

definition hexCentre :: "Editor \<Rightarrow> MapData \<Rightarrow> Hex \<Rightarrow> real \<times> real" where
  "hexCentre s d hex =
     axialToPixel (hex_q hex) (hex_r hex) (sizePx s) (md_orientation d)
       (rect s) (stagger s) (mirror s) (maxR s)"

definition hexDist :: "Editor \<Rightarrow> MapData \<Rightarrow> real \<Rightarrow> real \<Rightarrow> Hex \<Rightarrow> real" where
  "hexDist s d svgX svgY hex =
     (case hexCentre s d hex of (x, y) \<Rightarrow> sqrt ((svgX - x) ^ 2 + (svgY - y) ^ 2))"

text \<open>\<^verbatim>\<open>dist < closestDist\<close>, where \<open>None\<close> is the initial \<^verbatim>\<open>Infinity\<close> (the source's \<^verbatim>\<open>dist\<close> is
  \<open>dist'\<close> here).\<close>

fun lessThanClosest :: "real \<Rightarrow> real option \<Rightarrow> bool" where
  "lessThanClosest dist' None = True"
| "lessThanClosest dist' (Some closestDist) = (dist' < closestDist)"

fun findHexLoop ::
  "Editor \<Rightarrow> MapData \<Rightarrow> real \<Rightarrow> real \<Rightarrow> Hex list \<Rightarrow> Hex option \<Rightarrow> real option \<Rightarrow> Hex option" where
  "findHexLoop s d svgX svgY [] closest closestDist = closest"
| "findHexLoop s d svgX svgY (hex # rest) closest closestDist =
     (let dist' = hexDist s d svgX svgY hex;
          threshold = sizePx s * 0.9
      in if dist' < threshold \<and> lessThanClosest dist' closestDist
         then findHexLoop s d svgX svgY rest (Some hex) (Some dist')
         else findHexLoop s d svgX svgY rest closest closestDist)"

definition findHexAtPoint :: "real \<Rightarrow> real \<Rightarrow> Editor \<Rightarrow> Hex option" where
  "findHexAtPoint svgX svgY s =
     (case data s of
        None \<Rightarrow> None
      | Some d \<Rightarrow> findHexLoop s d svgX svgY (md_map d) None None)"

text \<open>
  Notation for the statements about the hit tester: the Euclidean distance from the point
  \<open>(px, py)\<close> to the centre that \<^verbatim>\<open>axialToPixel\<close> gives the tile \<open>h\<close> of the document \<open>d\<close>, at
  the pixel size \<open>hexSize \<times> 100\<close>, under the layout toggles of the state and with the
  greatest row of the document as \<open>maxR\<close>.
\<close>

abbreviation centreDistance :: "Editor \<Rightarrow> MapData \<Rightarrow> real \<Rightarrow> real \<Rightarrow> Hex \<Rightarrow> real" where
  "centreDistance s d px py h \<equiv>
     sqrt ((px - fst (axialToPixel (hex_q h) (hex_r h) (md_hexSize d * 100) (md_orientation d)
                        (rect s) (stagger s) (mirror s) (Max (set (map hex_r (md_map d)))))) ^ 2
         + (py - snd (axialToPixel (hex_q h) (hex_r h) (md_hexSize d * 100) (md_orientation d)
                        (rect s) (stagger s) (mirror s) (Max (set (map hex_r (md_map d)))))) ^ 2)"

section \<open>Brush strokes and pointer handlers\<close>

text \<open>
  The updater that \<^verbatim>\<open>paintHexWithBrush\<close> hands to \<^verbatim>\<open>setData\<close>: it maps the previous
  document to the one in which every tile with the id of \<open>hex\<close> carries the brush's
  terrain and tier.
\<close>

definition brushUpdater :: "Hex \<Rightarrow> string \<Rightarrow> int \<Rightarrow> MapData option \<Rightarrow> MapData option" where
  "brushUpdater hex terrain tier prev =
     (case prev of
        None \<Rightarrow> None
      | Some p \<Rightarrow>
          Some (p\<lparr>md_map :=
                  map (\<lambda>h. if hex_id h = hex_id hex
                            then h\<lparr>hex_terrain := terrain, hex_tier := tier\<rparr> else h)
                    (md_map p)\<rparr>))"

definition paintHexWithBrush :: "Hex \<Rightarrow> Editor \<Rightarrow> Editor" where
  "paintHexWithBrush hex s =
     (if data s = None then s
      else if hex_id hex \<in> paintedInStroke s then s
      else if hex_terrain hex = brushTerrain s \<and> hex_tier hex = brushTier s then s
      else
        s\<lparr>paintedInStroke := insert (hex_id hex) (paintedInStroke s),
          data := brushUpdater hex (brushTerrain s) (brushTier s) (data s)\<rparr>)"

text \<open>The tile under the pointer: \<^verbatim>\<open>mouseToSvg\<close>, then \<^verbatim>\<open>findHexAtPoint\<close>.\<close>

definition hexUnderPointer :: "MouseEvent \<Rightarrow> Editor \<Rightarrow> Hex option" where
  "hexUnderPointer e s =
     (case svgPoint e of
        None \<Rightarrow> None
      | Some (x, y) \<Rightarrow> findHexAtPoint x y s)"

definition onMouseDown :: "MouseEvent \<Rightarrow> Editor \<Rightarrow> Editor" where
  "onMouseDown e s =
     (if button e \<noteq> 0 then s
      else if brushEnabled s \<and> editMode s = Terrain then
        (let s1 = s\<lparr>isBrushPainting := True, isPanning := False,
                     isDragSelecting := False, paintedInStroke := {}\<rparr>
         in case hexUnderPointer e s1 of
              None \<Rightarrow> s1
            | Some hex \<Rightarrow> paintHexWithBrush hex s1)
      else if (ctrlKey e \<or> metaKey e) \<and> editMode s = Terrain then
        s\<lparr>isDragSelecting := True, isPanning := False, isBrushPainting := False\<rparr>
      else
        s\<lparr>isPanning := True, isDragSelecting := False, isBrushPainting := False,
          start := (clientX e - fst (offset s), clientY e - snd (offset s))\<rparr>)"

definition onMouseMove :: "MouseEvent \<Rightarrow> Editor \<Rightarrow> Editor" where
  "onMouseMove e s =
     (if isBrushPainting s \<and> brushEnabled s then
        (case hexUnderPointer e s of
           None \<Rightarrow> s
         | Some hex \<Rightarrow> paintHexWithBrush hex s)
      else if isDragSelecting s \<and> (ctrlKey e \<or> metaKey e) then
        (case hexUnderPointer e s of
           None \<Rightarrow> s
         | Some hex \<Rightarrow>
             s\<lparr>selectedMultiple :=
                 (if hex_id hex \<in> selectedMultiple s then selectedMultiple s
                  else insert (hex_id hex) (selectedMultiple s)),
               selected := Some hex\<rparr>)
      else if \<not> isPanning s then s
      else s\<lparr>offset := (clientX e - fst (start s), clientY e - snd (start s))\<rparr>)"

definition onMouseUp :: "Editor \<Rightarrow> Editor" where
  "onMouseUp s =
     s\<lparr>isPanning := False, isDragSelecting := False, isBrushPainting := False,
       paintedInStroke := {}\<rparr>"

section \<open>Events during a session\<close>

text \<open>The button of the brush tool: \<^verbatim>\<open>setBrushEnabled(!brushEnabled)\<close>.\<close>

definition toggleBrush :: "Editor \<Rightarrow> Editor" where
  "toggleBrush s = s\<lparr>brushEnabled := \<not> brushEnabled s\<rparr>"

text \<open>
  The events the canvas and the brush button receive, and the handler each one runs
  (\<^verbatim>\<open>onMouseLeave\<close> is bound to \<^verbatim>\<open>onMouseUp\<close>).
\<close>

datatype UiEvent = PointerDown MouseEvent | PointerMove MouseEvent | PointerUp | BrushButton

fun dispatch :: "UiEvent \<Rightarrow> Editor \<Rightarrow> Editor" where
  "dispatch (PointerDown e) s = onMouseDown e s"
| "dispatch (PointerMove e) s = onMouseMove e s"
| "dispatch PointerUp s = onMouseUp s"
| "dispatch BrushButton s = toggleBrush s"

text \<open>The events that can occur between a pointer-down and the pointer-up of its stroke.\<close>

fun duringStroke :: "UiEvent \<Rightarrow> bool" where
  "duringStroke (PointerMove e) = True"
| "duringStroke BrushButton = True"
| "duringStroke (PointerDown e) = False"
| "duringStroke PointerUp = False"

text \<open>The number of stroke modes that are active: the three flags, counted.\<close>

definition activeModes :: "Editor \<Rightarrow> nat" where
  "activeModes s =
     (if isPanning s then 1 else 0) + (if isBrushPainting s then 1 else 0)
     + (if isDragSelecting s then 1 else 0)"

text \<open>A tile carries the brush's configured terrain and tier.\<close>

definition matchesBrush :: "Hex \<Rightarrow> Editor \<Rightarrow> bool" where
  "matchesBrush hex s = (hex_terrain hex = brushTerrain s \<and> hex_tier hex = brushTier s)"

text \<open>
  The mutations of a run of events: for every event that changes the document, the id of
  the tile under the pointer, in order.
\<close>

fun tileUnder :: "UiEvent \<Rightarrow> Editor \<Rightarrow> Hex option" where
  "tileUnder (PointerDown e) s = hexUnderPointer e s"
| "tileUnder (PointerMove e) s = hexUnderPointer e s"
| "tileUnder PointerUp s = None"
| "tileUnder BrushButton s = None"

fun paintLog :: "UiEvent list \<Rightarrow> Editor \<Rightarrow> string list" where
  "paintLog [] s = []"
| "paintLog (ev # evs) s =
     (if data (dispatch ev s) \<noteq> data s
      then (case tileUnder ev s of None \<Rightarrow> [] | Some hex \<Rightarrow> [hex_id hex]) else [])
     @ paintLog evs (dispatch ev s)"

text \<open>
  The invariant of a brush stroke: every tile whose id is in the painted record carries
  the brush's terrain and tier.
\<close>

definition paintedMatchBrush :: "Editor \<Rightarrow> bool" where
  "paintedMatchBrush s =
     (case data s of
        None \<Rightarrow> True
      | Some d \<Rightarrow> list_all (\<lambda>h. hex_id h \<notin> paintedInStroke s \<or> matchesBrush h s) (md_map d))"

text \<open>
  A state inside a brush stroke: the brush flag is set, the brush is enabled and the
  invariant holds.
\<close>

definition brushStrokeState :: "Editor \<Rightarrow> bool" where
  "brushStrokeState s = (isBrushPainting s \<and> brushEnabled s \<and> paintedMatchBrush s)"

text \<open>Every tile with the id \<open>i\<close> carries the brush's terrain and tier.\<close>

definition idMatchesBrush :: "string \<Rightarrow> Editor \<Rightarrow> bool" where
  "idMatchesBrush i s =
     (case data s of
        None \<Rightarrow> True
      | Some d \<Rightarrow> list_all (\<lambda>h. hex_id h \<noteq> i \<or> matchesBrush h s) (md_map d))"

section \<open>Example inputs\<close>

text \<open>
  Two tiles, a document holding them, and two pointer events, for the concrete instances
  below.
\<close>

definition hexA :: Hex where
  "hexA = \<lparr>hex_q = 0, hex_r = 0, hex_id = ''hex_0_0'', hex_asset = [],
           hex_terrain = ''grass'', hex_tier = 1\<rparr>"

definition hexB :: Hex where
  "hexB = \<lparr>hex_q = 1, hex_r = 0, hex_id = ''hex_1_0'', hex_asset = [],
           hex_terrain = ''water'', hex_tier = 0\<rparr>"

definition exampleDoc :: MapData where
  "exampleDoc = \<lparr>md_hexSize = 0.8, md_orientation = Pointy, md_map = [hexA, hexB],
                 md_spawnPoints = None, md_worldTree = None\<rparr>"

definition plainClick :: MouseEvent where
  "plainClick = \<lparr>button = 0, ctrlKey = False, metaKey = False, clientX = 0, clientY = 0,
                 svgPoint = Some (0, 0)\<rparr>"

definition ctrlClick :: MouseEvent where
  "ctrlClick = plainClick\<lparr>ctrlKey := True\<rparr>"

text \<open>
  The example document with the brush enabled and set to water, tier \<open>0\<close>; a pointer event
  whose conversion to SVG coordinates fails; the first tile as the brush leaves it.
\<close>

definition brushExample :: Editor where
  "brushExample =
     (applyParsed exampleDoc initialEditor)
       \<lparr>brushEnabled := True, brushTerrain := ''water'', brushTier := 0\<rparr>"

definition offCanvas :: MouseEvent where
  "offCanvas = plainClick\<lparr>svgPoint := None\<rparr>"

definition hexA_painted :: Hex where
  "hexA_painted = hexA\<lparr>hex_terrain := ''water'', hex_tier := 0\<rparr>"

section \<open>The stagger offset\<close>

lemma js_rem_2: "js_rem k 2 = (if even k then 0 else if 0 < k then 1 else - 1)"
proof -
  have "\<bar>k\<bar> mod 2 = (if even k then 0 else 1)"
    by presburger
  then show ?thesis
    by (simp add: js_rem_def smod_int_alt_def sgn_if)
qed

lemma staggerOffset_eq:
  "staggerOffset q r size' orientation rect' mirror' maxR' =
     (of_int (js_rem (if orientation = Pointy then r else q) 2) * SQRT3 * size') / 2"
  by (simp add: staggerOffset_def crossAxis_def axialToPixel_def Let_def)

lemma staggerOffset_jsx_eq:
  "staggerOffset_jsx q r size' orientation rect' mirror' maxR' =
     (of_int (js_rem (if orientation = Pointy then (if mirror' then maxR' - r else r) else q) 2)
        * SQRT3 * size') / 2"
  by (simp add: staggerOffset_jsx_def crossAxis_def axialToPixel_jsx_def Let_def)

text \<open>
  The half-tile offset of \<^verbatim>\<open>axialToPixel\<close> of the TypeScript editor (the cross-axis
  coordinate with stagger on minus the one with stagger off) follows the sign of the row
  index \<open>r\<close> (pointy) or the column index \<open>q\<close> (flat), because it is computed with the
  JavaScript remainder: \<open>+(\<surd>3 \<sqdot> size)/2\<close> for a positive odd index, \<open>-(\<surd>3 \<sqdot> size)/2\<close> for a
  negative odd index, \<open>0\<close> for an even index.
\<close>

lemma axialToPixel_stagger_sign:
  "fst (axialToPixel q r size' Pointy rect' True mirror' maxR')
     - fst (axialToPixel q r size' Pointy rect' False mirror' maxR')
     = (if even r then 0 else if 0 < r then (sqrt 3 * size') / 2 else - ((sqrt 3 * size') / 2))
   \<and> snd (axialToPixel q r size' Flat rect' True mirror' maxR')
     - snd (axialToPixel q r size' Flat rect' False mirror' maxR')
     = (if even q then 0 else if 0 < q then (sqrt 3 * size') / 2 else - ((sqrt 3 * size') / 2))"
  by (simp add: axialToPixel_def Let_def js_rem_2 SQRT3_def)

text \<open>
  The JavaScript variant computes the offset with the same remainder; in its pointy
  branch the index is the mirrored row \<open>rr\<close>, which is \<open>r\<close> itself when mirroring is off.
\<close>

lemma axialToPixel_jsx_stagger_sign:
  "fst (axialToPixel_jsx q r size' Pointy rect' True mirror' maxR')
     - fst (axialToPixel_jsx q r size' Pointy rect' False mirror' maxR')
     = (let rr = (if mirror' then maxR' - r else r) in
        if even rr then 0 else if 0 < rr then (sqrt 3 * size') / 2 else - ((sqrt 3 * size') / 2))
   \<and> snd (axialToPixel_jsx q r size' Flat rect' True mirror' maxR')
     - snd (axialToPixel_jsx q r size' Flat rect' False mirror' maxR')
     = (if even q then 0 else if 0 < q then (sqrt 3 * size') / 2 else - ((sqrt 3 * size') / 2))"
  by (simp add: axialToPixel_jsx_def Let_def js_rem_2 SQRT3_def)

text \<open>
  Claim C10. In \<^verbatim>\<open>axialToPixel\<close> with stagger enabled the offset is \<open>+(\<surd>3 \<sqdot> size)/2\<close> for every
  positive odd \<open>r\<close> (pointy), \<open>-(\<surd>3 \<sqdot> size)/2\<close> for every negative odd \<open>r\<close> and \<open>0\<close> for every
  even \<open>r\<close>. The TypeScript editor satisfies it (\<open>axialToPixel_stagger_sign\<close>). The
  JavaScript variant does not, since its pointy branch takes the remainder of the
  mirrored row: on its built-in default document (pixel size \<open>80\<close>, \<open>maxR = 1\<close>) with
  mirroring on, the tile \<open>(0, 1)\<close> on the positive odd row \<open>1\<close> gets the offset \<open>0\<close>, the tile
  \<open>(0, -1)\<close> on the negative odd row \<open>-1\<close> gets \<open>0\<close>, and the tile \<open>(0, 0)\<close> on the even row \<open>0\<close>
  gets \<open>40 \<sqdot> \<surd>3\<close>; the TypeScript editor gives \<open>40 \<sqdot> \<surd>3\<close>, \<open>-40 \<sqdot> \<surd>3\<close> and \<open>0\<close> there.
\<close>

theorem axialToPixel_jsx_stagger_ignores_row_sign:
  "fst (axialToPixel_jsx 0 1 80 Pointy True True True 1)
     - fst (axialToPixel_jsx 0 1 80 Pointy True False True 1) = 0
   \<and> fst (axialToPixel_jsx 0 (- 1) 80 Pointy True True True 1)
     - fst (axialToPixel_jsx 0 (- 1) 80 Pointy True False True 1) = 0
   \<and> fst (axialToPixel_jsx 0 0 80 Pointy True True True 1)
     - fst (axialToPixel_jsx 0 0 80 Pointy True False True 1) = 40 * sqrt 3
   \<and> fst (axialToPixel 0 1 80 Pointy True True True 1)
     - fst (axialToPixel 0 1 80 Pointy True False True 1) = 40 * sqrt 3
   \<and> fst (axialToPixel 0 (- 1) 80 Pointy True True True 1)
     - fst (axialToPixel 0 (- 1) 80 Pointy True False True 1) = - (40 * sqrt 3)
   \<and> fst (axialToPixel 0 0 80 Pointy True True True 1)
     - fst (axialToPixel 0 0 80 Pointy True False True 1) = 0"
  by (simp add: axialToPixel_jsx_def axialToPixel_def Let_def js_rem_2 SQRT3_def)

text \<open>
  The stagger offset of the TypeScript editor does not depend on \<open>mirror\<close> or on \<open>maxR\<close>:
  it reads the parity of the original \<open>r\<close> (pointy) or \<open>q\<close> (flat).
\<close>

lemma staggerOffset_mirror_independent:
  "staggerOffset q r size' orientation rect' True maxR'
     = staggerOffset q r size' orientation rect' False maxR'"
  by (simp add: staggerOffset_eq)

lemma staggerOffset_maxR_independent:
  "staggerOffset q r size' orientation rect' mirror' maxR1
     = staggerOffset q r size' orientation rect' mirror' maxR2"
  by (simp add: staggerOffset_eq)

text \<open>
  Claim C1. The stagger offset contributed by \<^verbatim>\<open>axialToPixel\<close> is the same for
  \<open>mirror = true\<close> and \<open>mirror = false\<close>. The TypeScript editor satisfies it
  (\<open>staggerOffset_mirror_independent\<close>); the JavaScript variant does not: on its built-in
  default document (pointy, \<open>hexSize = 0.8\<close>, so a pixel size of \<open>80\<close>, rows \<open>-1..1\<close>, so
  \<open>maxR = 1\<close>) the tile \<open>(0, 0)\<close> is displaced by \<open>40 \<sqdot> \<surd>3\<close> with mirroring on and by \<open>0\<close> with
  mirroring off.
\<close>

theorem axialToPixel_jsx_stagger_depends_on_mirror:
  "staggerOffset_jsx 0 0 80 Pointy True True 1 = 40 * sqrt 3
   \<and> staggerOffset_jsx 0 0 80 Pointy True False 1 = 0
   \<and> staggerOffset_jsx 0 0 80 Pointy True True 1 \<noteq> staggerOffset_jsx 0 0 80 Pointy True False 1"
  by (simp add: staggerOffset_jsx_eq js_rem_2 SQRT3_def)

section \<open>Markers\<close>

lemma find_snoc_None:
  "find P xs = None \<Longrightarrow> P p \<Longrightarrow> find P (xs @ [p]) = Some p"
  by (induction xs) (auto split: if_splits)

lemma filter_not_find_None:
  "find P xs = None \<Longrightarrow> filter (\<lambda>x. \<not> P x) xs = xs"
  by (induction xs) (auto split: if_splits)

lemma toggleSpawnPoint_twice:
  "spawnPoints (toggleSpawnPoint q r (toggleSpawnPoint q r s))
     = (if isSpawnPoint q r s
        then filter (\<lambda>sp. \<not> (sp_q sp = q \<and> sp_r sp = r)) (spawnPoints s) @ [\<lparr>sp_q = q, sp_r = r\<rparr>]
        else spawnPoints s)"
proof -
  define P :: "SpawnPoint \<Rightarrow> bool" where "P = (\<lambda>sp. sp_q sp = q \<and> sp_r sp = r)"
  define p where "p = \<lparr>sp_q = q, sp_r = r\<rparr>"
  have Pp: "P p"
    by (simp add: P_def p_def)
  have tog: "spawnPoints (toggleSpawnPoint q r t)
      = (case find P (spawnPoints t) of
           Some x \<Rightarrow> filter (\<lambda>x. \<not> P x) (spawnPoints t)
         | None \<Rightarrow> spawnPoints t @ [p])" for t
    unfolding toggleSpawnPoint_def P_def p_def Let_def by simp
  have ex: "isSpawnPoint q r s = (find P (spawnPoints s) \<noteq> None)"
    by (auto simp: isSpawnPoint_def P_def list_ex_iff find_None_iff)
  have gone: "find P (filter (\<lambda>x. \<not> P x) xs) = None" for xs
    by (simp add: find_None_iff)
  have "spawnPoints (toggleSpawnPoint q r (toggleSpawnPoint q r s))
      = (if isSpawnPoint q r s then filter (\<lambda>x. \<not> P x) (spawnPoints s) @ [p] else spawnPoints s)"
  proof (cases "find P (spawnPoints s)")
    case None
    then show ?thesis
      using Pp by (simp add: tog ex find_snoc_None filter_not_find_None)
  next
    case (Some x)
    then show ?thesis
      by (simp add: tog ex gone)
  qed
  then show ?thesis
    by (simp add: P_def p_def)
qed

lemma SpawnPoint_eta: "\<lparr>sp_q = sp_q sp, sp_r = sp_r sp\<rparr> = (sp :: SpawnPoint)"
  by (cases sp) simp

lemma toggleSpawnPoint_twice_set:
  "set (spawnPoints (toggleSpawnPoint q r (toggleSpawnPoint q r s))) = set (spawnPoints s)"
proof -
  have "\<lparr>sp_q = q, sp_r = r\<rparr> \<in> set (spawnPoints s)" if "isSpawnPoint q r s"
    using that by (auto simp: isSpawnPoint_def list_ex_iff SpawnPoint_eta)
  then show ?thesis
    by (auto simp: toggleSpawnPoint_twice)
qed

lemma setWorldTreeAt_worldTree:
  "worldTree (setWorldTreeAt q r s)
     = (if worldTree s = Some \<lparr>sp_q = q, sp_r = r\<rparr> then None else Some \<lparr>sp_q = q, sp_r = r\<rparr>)"
  by (auto simp: setWorldTreeAt_def split: option.splits)

text \<open>
  Claim C6, as stated: after setting the goal at \<open>p\<close> twice in succession the goal is none,
  from every starting state. It fails when the goal is at \<open>p\<close> to begin with: the first
  call clears it and the second sets it again.
\<close>

theorem setWorldTreeAt_twice_counterexample:
  "worldTree (setWorldTreeAt 0 0 (setWorldTreeAt 0 0
       (initialEditor\<lparr>worldTree := Some \<lparr>sp_q = 0, sp_r = 0\<rparr>\<rparr>)))
     = Some \<lparr>sp_q = 0, sp_r = 0\<rparr>
   \<and> worldTree (setWorldTreeAt 0 0 (setWorldTreeAt 0 0
       (initialEditor\<lparr>worldTree := Some \<lparr>sp_q = 0, sp_r = 0\<rparr>\<rparr>))) \<noteq> None"
  by (simp add: setWorldTreeAt_def)

text \<open>
  Claim C6, amended. Toggling the spawn point at \<open>p\<close> twice in succession restores the
  membership of the spawn set. Setting the goal at \<open>p\<close> clears it when it is at \<open>p\<close> and
  otherwise replaces whatever it was by \<open>p\<close> (the goal is a single optional value, so at
  most one exists). Setting it at \<open>p\<close> twice in succession leaves the goal none when it
  was not at \<open>p\<close> before, and leaves it at \<open>p\<close> when it was.
\<close>

theorem marker_toggle_laws:
  "set (spawnPoints (toggleSpawnPoint q r (toggleSpawnPoint q r s))) = set (spawnPoints s)
   \<and> worldTree (setWorldTreeAt q r s)
       = (if worldTree s = Some \<lparr>sp_q = q, sp_r = r\<rparr> then None
          else Some \<lparr>sp_q = q, sp_r = r\<rparr>)
   \<and> worldTree (setWorldTreeAt q r (setWorldTreeAt q r s))
       = (if worldTree s = Some \<lparr>sp_q = q, sp_r = r\<rparr> then Some \<lparr>sp_q = q, sp_r = r\<rparr>
          else None)"
  by (simp add: toggleSpawnPoint_twice_set setWorldTreeAt_worldTree)

theorem marker_toggle_laws_witness:
  "set (spawnPoints (toggleSpawnPoint 2 (- 1) (toggleSpawnPoint 2 (- 1)
       (initialEditor\<lparr>spawnPoints := [\<lparr>sp_q = 0, sp_r = 0\<rparr>, \<lparr>sp_q = 2, sp_r = - 1\<rparr>],
                       worldTree := Some \<lparr>sp_q = 5, sp_r = 5\<rparr>\<rparr>))))
     = {\<lparr>sp_q = 0, sp_r = 0\<rparr>, \<lparr>sp_q = 2, sp_r = - 1\<rparr>}
   \<and> worldTree (setWorldTreeAt 2 (- 1)
       (initialEditor\<lparr>spawnPoints := [\<lparr>sp_q = 0, sp_r = 0\<rparr>, \<lparr>sp_q = 2, sp_r = - 1\<rparr>],
                       worldTree := Some \<lparr>sp_q = 5, sp_r = 5\<rparr>\<rparr>))
     = Some \<lparr>sp_q = 2, sp_r = - 1\<rparr>
   \<and> worldTree (setWorldTreeAt 2 (- 1) (setWorldTreeAt 2 (- 1)
       (initialEditor\<lparr>spawnPoints := [\<lparr>sp_q = 0, sp_r = 0\<rparr>, \<lparr>sp_q = 2, sp_r = - 1\<rparr>],
                       worldTree := Some \<lparr>sp_q = 5, sp_r = 5\<rparr>\<rparr>)))
     = None"
  using marker_toggle_laws [of 2 "- 1"
      "initialEditor\<lparr>spawnPoints := [\<lparr>sp_q = 0, sp_r = 0\<rparr>, \<lparr>sp_q = 2, sp_r = - 1\<rparr>],
                      worldTree := Some \<lparr>sp_q = 5, sp_r = 5\<rparr>\<rparr>"]
  by simp

section \<open>Selection\<close>

lemma handleHexClick_editMode: "editMode (handleHexClick hex e s) = editMode s"
  by (simp add: handleHexClick_def toggleSpawnPoint_def setWorldTreeAt_def Let_def
      split: option.splits)

lemma handleHexClick_plain:
  assumes "editMode s = Terrain" and "\<not> (ctrlKey e \<or> metaKey e)"
  shows "selected (handleHexClick hex e s) = Some hex"
    and "selectedMultiple (handleHexClick hex e s) = {}"
  using assms by (simp_all add: handleHexClick_def)

lemma handleHexClick_modifier:
  assumes "editMode s = Terrain" and "ctrlKey e \<or> metaKey e"
  shows "selected (handleHexClick hex e s) = Some hex"
    and "selectedMultiple s = {} \<Longrightarrow> selected s = Some other \<Longrightarrow> hex_id other \<noteq> hex_id hex
         \<Longrightarrow> selectedMultiple (handleHexClick hex e s) = {hex_id other, hex_id hex}"
    and "selectedMultiple s \<noteq> {} \<Longrightarrow> hex_id hex \<in> selectedMultiple s
         \<Longrightarrow> selectedMultiple (handleHexClick hex e s) = selectedMultiple s - {hex_id hex}"
    and "selectedMultiple s \<noteq> {} \<Longrightarrow> hex_id hex \<notin> selectedMultiple s
         \<Longrightarrow> selectedMultiple (handleHexClick hex e s) = insert (hex_id hex) (selectedMultiple s)"
proof -
  show "selected (handleHexClick hex e s) = Some hex"
    using assms by (simp add: handleHexClick_def Let_def)
  show "selectedMultiple (handleHexClick hex e s) = {hex_id other, hex_id hex}"
    if "selectedMultiple s = {}" "selected s = Some other" "hex_id other \<noteq> hex_id hex"
    using assms that by (simp add: handleHexClick_def Let_def insert_commute)
  show "selectedMultiple (handleHexClick hex e s) = selectedMultiple s - {hex_id hex}"
    if "selectedMultiple s \<noteq> {}" "hex_id hex \<in> selectedMultiple s"
    using assms that by (simp add: handleHexClick_def Let_def split: option.splits)
  show "selectedMultiple (handleHexClick hex e s) = insert (hex_id hex) (selectedMultiple s)"
    if "selectedMultiple s \<noteq> {}" "hex_id hex \<notin> selectedMultiple s"
    using assms that by (simp add: handleHexClick_def Let_def split: option.splits)
qed

text \<open>
  Claim C7. In terrain mode a modifier-click makes the clicked tile the focus whatever the
  resulting membership; when the selection is \<open>single(other)\<close> (focus \<open>other\<close>, empty
  multi-set) with \<open>other \<noteq> clicked\<close>, the multi-set is first seeded with \<open>other\<close> and then
  \<open>clicked\<close> is toggled in, giving \<open>{other, clicked}\<close>; and selecting \<open>a\<close> with a plain click,
  modifier-clicking a different tile \<open>b\<close>, then modifier-clicking \<open>a\<close> again ends with the
  multi-set \<open>{b}\<close> and the focus \<open>a\<close>.
\<close>

theorem modifier_click_seeds_then_toggles:
  assumes terrain: "editMode s = Terrain" and modifier: "ctrlKey e \<or> metaKey e"
  shows "selected (handleHexClick clicked e s) = Some clicked
    \<and> (selected s = Some other \<and> selectedMultiple s = {} \<and> hex_id other \<noteq> hex_id clicked
         \<longrightarrow> selectedMultiple (handleHexClick clicked e s) = {hex_id other, hex_id clicked})
    \<and> (\<not> (ctrlKey e0 \<or> metaKey e0) \<and> hex_id a \<noteq> hex_id b
         \<longrightarrow> selectedMultiple (handleHexClick a e (handleHexClick b e (handleHexClick a e0 s)))
               = {hex_id b}
             \<and> selected (handleHexClick a e (handleHexClick b e (handleHexClick a e0 s)))
               = Some a)"
proof (intro conjI impI)
  show "selected (handleHexClick clicked e s) = Some clicked"
    by (rule handleHexClick_modifier(1) [OF terrain modifier])
next
  assume "selected s = Some other \<and> selectedMultiple s = {} \<and> hex_id other \<noteq> hex_id clicked"
  then show "selectedMultiple (handleHexClick clicked e s) = {hex_id other, hex_id clicked}"
    using handleHexClick_modifier(2) [OF terrain modifier] by blast
next
  assume h: "\<not> (ctrlKey e0 \<or> metaKey e0) \<and> hex_id a \<noteq> hex_id b"
  define s1 where "s1 = handleHexClick a e0 s"
  define s2 where "s2 = handleHexClick b e s1"
  have t1: "editMode s1 = Terrain" and t2: "editMode s2 = Terrain"
    by (simp_all add: s1_def s2_def handleHexClick_editMode terrain)
  have sel1: "selected s1 = Some a" and multi1: "selectedMultiple s1 = {}"
    using handleHexClick_plain [OF terrain, of e0 a] h by (simp_all add: s1_def)
  have multi2: "selectedMultiple s2 = {hex_id a, hex_id b}"
    unfolding s2_def using handleHexClick_modifier(2) [OF t1 modifier multi1 sel1] h by blast
  have "selectedMultiple (handleHexClick a e s2) = selectedMultiple s2 - {hex_id a}"
    by (rule handleHexClick_modifier(3) [OF t2 modifier]) (simp_all add: multi2)
  with h have "selectedMultiple (handleHexClick a e s2) = {hex_id b}"
    by (auto simp: multi2)
  then show "selectedMultiple (handleHexClick a e (handleHexClick b e (handleHexClick a e0 s)))
      = {hex_id b}"
    by (simp add: s1_def s2_def)
  show "selected (handleHexClick a e (handleHexClick b e (handleHexClick a e0 s))) = Some a"
    using handleHexClick_modifier(1) [OF t2 modifier, of a] by (simp add: s1_def s2_def)
qed

theorem modifier_click_seeds_then_toggles_witness:
  "editMode (applyParsed exampleDoc initialEditor) = Terrain
   \<and> (ctrlKey ctrlClick \<or> metaKey ctrlClick)
   \<and> \<not> (ctrlKey plainClick \<or> metaKey plainClick)
   \<and> hex_id hexA \<noteq> hex_id hexB
   \<and> selected (handleHexClick hexA plainClick (applyParsed exampleDoc initialEditor)) = Some hexA
   \<and> selectedMultiple (handleHexClick hexA plainClick (applyParsed exampleDoc initialEditor)) = {}
   \<and> selectedMultiple (handleHexClick hexB ctrlClick
        (handleHexClick hexA plainClick (applyParsed exampleDoc initialEditor)))
      = {hex_id hexA, hex_id hexB}
   \<and> selectedMultiple (handleHexClick hexA ctrlClick (handleHexClick hexB ctrlClick
        (handleHexClick hexA plainClick (applyParsed exampleDoc initialEditor)))) = {hex_id hexB}
   \<and> selected (handleHexClick hexA ctrlClick (handleHexClick hexB ctrlClick
        (handleHexClick hexA plainClick (applyParsed exampleDoc initialEditor)))) = Some hexA"
proof -
  define s0 where "s0 = applyParsed exampleDoc initialEditor"
  define s1 where "s1 = handleHexClick hexA plainClick s0"
  have h1: "editMode s0 = Terrain"
    by (simp add: s0_def applyParsed_def)
  have h1': "editMode s1 = Terrain"
    by (simp add: s1_def handleHexClick_editMode h1)
  have h2: "ctrlKey ctrlClick \<or> metaKey ctrlClick"
    by (simp add: ctrlClick_def)
  have h3: "\<not> (ctrlKey plainClick \<or> metaKey plainClick)"
    by (simp add: plainClick_def)
  have h4: "hex_id hexA \<noteq> hex_id hexB"
    by (simp add: hexA_def hexB_def)
  have sel1: "selected s1 = Some hexA" and multi1: "selectedMultiple s1 = {}"
    using handleHexClick_plain [OF h1 h3, of hexA] by (simp_all add: s1_def)
  have "selectedMultiple (handleHexClick hexB ctrlClick s1) = {hex_id hexA, hex_id hexB}"
    using modifier_click_seeds_then_toggles [OF h1' h2, of hexB hexA plainClick hexA hexB]
      sel1 multi1 h4 by blast
  moreover have "selectedMultiple (handleHexClick hexA ctrlClick (handleHexClick hexB ctrlClick s1))
        = {hex_id hexB}
      \<and> selected (handleHexClick hexA ctrlClick (handleHexClick hexB ctrlClick s1)) = Some hexA"
    using modifier_click_seeds_then_toggles [OF h1 h2, of hexA hexA plainClick hexA hexB] h3 h4
    unfolding s1_def by blast
  ultimately show ?thesis
    using h1 h2 h3 h4 sel1 multi1 unfolding s1_def s0_def by blast
qed

section \<open>Import and export\<close>

text \<open>
  Claim C3. Importing a well-formed document and exporting at once gives the document
  back, field for field: \<open>hexSize\<close>, \<open>orientation\<close>, the \<open>map\<close> array and \<open>worldTree\<close> are
  those of the import (an absent \<open>worldTree\<close> stays absent), and \<open>spawnPoints\<close> is the
  imported list when that is non-empty and is omitted when it was absent or empty. This
  holds on the file-input path and on the file-picker path.
\<close>

theorem import_export_roundtrip:
  "getExportData (handleImport (Some (name, Some doc)) s)
     = Some (doc\<lparr>md_spawnPoints :=
               (case md_spawnPoints doc of
                  None \<Rightarrow> None
                | Some sps \<Rightarrow> if sps = [] then None else Some sps)\<rparr>)
   \<and> getExportData (handleImportClick True (Picked name (Some (Some doc))) s)
     = Some (doc\<lparr>md_spawnPoints :=
               (case md_spawnPoints doc of
                  None \<Rightarrow> None
                | Some sps \<Rightarrow> if sps = [] then None else Some sps)\<rparr>)"
  by (simp add: getExportData_def handleImport_def handleImportClick_def applyParsed_def
      split: option.splits)

theorem import_export_roundtrip_witness:
  "getExportData (handleImport (Some (''m.json'',
       Some (exampleDoc\<lparr>md_spawnPoints := Some [\<lparr>sp_q = 1, sp_r = 0\<rparr>],
                        md_worldTree := Some \<lparr>sp_q = 0, sp_r = 0\<rparr>\<rparr>))) initialEditor)
     = Some (exampleDoc\<lparr>md_spawnPoints := Some [\<lparr>sp_q = 1, sp_r = 0\<rparr>],
                        md_worldTree := Some \<lparr>sp_q = 0, sp_r = 0\<rparr>\<rparr>)
   \<and> getExportData (handleImport (Some (''m.json'',
       Some (exampleDoc\<lparr>md_spawnPoints := Some []\<rparr>))) initialEditor)
     = Some exampleDoc
   \<and> getExportData (handleImportClick True (Picked ''m.json'' (Some (Some exampleDoc)))
       initialEditor)
     = Some exampleDoc"
  using import_export_roundtrip [of "''m.json''"
      "exampleDoc\<lparr>md_spawnPoints := Some [\<lparr>sp_q = 1, sp_r = 0\<rparr>],
                   md_worldTree := Some \<lparr>sp_q = 0, sp_r = 0\<rparr>\<rparr>" initialEditor]
    import_export_roundtrip [of "''m.json''" "exampleDoc\<lparr>md_spawnPoints := Some []\<rparr>"
      initialEditor]
    import_export_roundtrip [of "''m.json''" exampleDoc initialEditor]
  by (simp add: exampleDoc_def)

text \<open>
  On a payload that does not parse, the file-input path (\<^verbatim>\<open>handleImport\<close>) shows the notice
  and leaves the document, the markers and the selection alone; the file-picker path
  leaves them alone too.
\<close>

lemma handleImport_parse_failure:
  "alerts (handleImport (Some (name, None)) s) = alerts s @ [''Invalid JSON'']
   \<and> data (handleImport (Some (name, None)) s) = data s
   \<and> spawnPoints (handleImport (Some (name, None)) s) = spawnPoints s
   \<and> worldTree (handleImport (Some (name, None)) s) = worldTree s
   \<and> selected (handleImport (Some (name, None)) s) = selected s
   \<and> selectedMultiple (handleImport (Some (name, None)) s) = selectedMultiple s"
  by (simp add: handleImport_def)

lemma handleImportClick_parse_failure_keeps_document:
  "data (handleImportClick True (Picked name (Some None)) s) = data s
   \<and> spawnPoints (handleImportClick True (Picked name (Some None)) s) = spawnPoints s
   \<and> worldTree (handleImportClick True (Picked name (Some None)) s) = worldTree s
   \<and> selected (handleImportClick True (Picked name (Some None)) s) = selected s
   \<and> selectedMultiple (handleImportClick True (Picked name (Some None)) s) = selectedMultiple s"
  by (simp add: handleImportClick_def clickFileInput_def)

text \<open>
  Claim C8. A payload that fails to parse is reported by a blocking notice on every import
  path. On the file-picker path it is not: \<^verbatim>\<open>handleImportClick\<close> catches the error of
  \<^verbatim>\<open>JSON.parse\<close> with the errors of the picker, shows no notice, opens the fallback file
  input, and has by then recorded the unparsable file as the file to save to.
\<close>

theorem handleImportClick_parse_failure_no_notice:
  "alerts (handleImportClick True (Picked name (Some None)) s) = alerts s
   \<and> fileInputClicks (handleImportClick True (Picked name (Some None)) s)
       = Suc (fileInputClicks s)
   \<and> lastFileHandle (handleImportClick True (Picked name (Some None)) s) = Some name
   \<and> lastFileName (handleImportClick True (Picked name (Some None)) s) = name"
  by (simp add: handleImportClick_def clickFileInput_def)

section \<open>Tier controls\<close>

text \<open>
  Both wheel handlers write a tier between \<open>0\<close> and \<open>3\<close>, whatever the tier was. The buttons
  clamp on one side each, which is enough when the tier of the focus tile is in range.
\<close>

lemma handleWheel_cases:
  "handleWheel deltaY s = s
   \<or> (\<exists>t. 0 \<le> t \<and> t \<le> 3 \<and> handleWheel deltaY s = updateHex (TierField t) s)"
proof (cases "(selected s \<noteq> None \<or> selectedMultiple s \<noteq> {}) \<and> editMode s = Terrain")
  case True
  define t where "t = max 0 (min 3 ((case selected s of None \<Rightarrow> 0 | Some sel \<Rightarrow> hex_tier sel)
      + (if deltaY > 0 then - 1 else 1)))"
  have "handleWheel deltaY s = updateHex (TierField t) s"
    using True unfolding handleWheel_def Let_def t_def by simp
  moreover have "0 \<le> t \<and> t \<le> 3"
    by (simp add: t_def)
  ultimately show ?thesis by blast
next
  case False
  then have "handleWheel deltaY s = s"
    by (auto simp: handleWheel_def Let_def)
  then show ?thesis by simp
qed


lemma tierWidgetWheel_cases:
  "tierWidgetWheel deltaY s = s
   \<or> (\<exists>t. 0 \<le> t \<and> t \<le> 3 \<and> tierWidgetWheel deltaY s = updateHex (TierField t) s)"
proof (cases "selected s")
  case None
  then show ?thesis
    by (simp add: tierWidgetWheel_def)
next
  case (Some sel)
  define t where "t = max 0 (min 3 (hex_tier sel + (if deltaY > 0 then - 1 else 1)))"
  have "tierWidgetWheel deltaY s = s \<or> tierWidgetWheel deltaY s = updateHex (TierField t) s"
    using Some unfolding tierWidgetWheel_def Let_def t_def by simp
  moreover have "0 \<le> t \<and> t \<le> 3"
    by (simp add: t_def)
  ultimately show ?thesis by blast
qed

lemma tierWidget_buttons_in_range:
  assumes "selected s = Some sel" and "0 \<le> hex_tier sel" and "hex_tier sel \<le> 3"
  shows "tierWidgetMinus s = s
      \<or> (\<exists>t. 0 \<le> t \<and> t \<le> 3 \<and> tierWidgetMinus s = updateHex (TierField t) s)"
    and "tierWidgetPlus s = s
      \<or> (\<exists>t. 0 \<le> t \<and> t \<le> 3 \<and> tierWidgetPlus s = updateHex (TierField t) s)"
proof -
  have "0 \<le> max 0 (hex_tier sel - 1) \<and> max 0 (hex_tier sel - 1) \<le> 3"
    using assms by simp
  moreover have "tierWidgetMinus s = s
      \<or> tierWidgetMinus s = updateHex (TierField (max 0 (hex_tier sel - 1))) s"
    using assms by (simp add: tierWidgetMinus_def)
  ultimately show "tierWidgetMinus s = s
      \<or> (\<exists>t. 0 \<le> t \<and> t \<le> 3 \<and> tierWidgetMinus s = updateHex (TierField t) s)"
    by blast
  have "0 \<le> min 3 (hex_tier sel + 1) \<and> min 3 (hex_tier sel + 1) \<le> 3"
    using assms by simp
  moreover have "tierWidgetPlus s = s
      \<or> tierWidgetPlus s = updateHex (TierField (min 3 (hex_tier sel + 1))) s"
    using assms by (simp add: tierWidgetPlus_def)
  ultimately show "tierWidgetPlus s = s
      \<or> (\<exists>t. 0 \<le> t \<and> t \<le> 3 \<and> tierWidgetPlus s = updateHex (TierField t) s)"
    by blast
qed

text \<open>
  Claim C5. After every edit through the tier controls the tier lies in \<open>[0, 3]\<close>, also
  from an out-of-range tier supplied by imported data. The buttons of the tier widget
  break it: on an imported tile of tier \<open>10\<close> the \<open>-\<close> button writes \<open>9\<close>, and on an imported
  tile of tier \<open>-5\<close> the \<open>+\<close> button writes \<open>-4\<close>.
\<close>

theorem tier_buttons_leave_range:
  "map_option (\<lambda>d. map hex_tier (md_map d))
     (data (tierWidgetMinus (handleHexClick (hexA\<lparr>hex_tier := 10\<rparr>) plainClick
        (applyParsed (exampleDoc\<lparr>md_map := [hexA\<lparr>hex_tier := 10\<rparr>, hexB]\<rparr>) initialEditor))))
     = Some [9, 0]
   \<and> map_option (\<lambda>d. map hex_tier (md_map d))
     (data (tierWidgetPlus (handleHexClick (hexA\<lparr>hex_tier := - 5\<rparr>) plainClick
        (applyParsed (exampleDoc\<lparr>md_map := [hexA\<lparr>hex_tier := - 5\<rparr>, hexB]\<rparr>) initialEditor))))
     = Some [- 4, 0]"
  by (simp add: tierWidgetMinus_def tierWidgetPlus_def handleHexClick_def applyParsed_def
      initialEditor_def updateHex_def exampleDoc_def hexA_def hexB_def plainClick_def)

section \<open>Hit testing\<close>

text \<open>
  The loop of \<^verbatim>\<open>findHexAtPoint\<close>, from any accumulator that is either the initial one or a
  tile within the threshold together with its distance: the result is none only when the
  accumulator is none and no tile of the list is within the threshold; otherwise it is
  within the threshold, at most as far as every tile of the list and as the accumulator,
  and it is either the accumulator or the first tile of the list at its distance.
\<close>

lemma findHexLoop_result:
  assumes "(closest = None \<and> closestDist = None)
     \<or> (\<exists>c. closest = Some c \<and> closestDist = Some (hexDist s d svgX svgY c)
            \<and> hexDist s d svgX svgY c < sizePx s * 0.9)"
  shows "case findHexLoop s d svgX svgY xs closest closestDist of
      None \<Rightarrow> closest = None \<and> (\<forall>h \<in> set xs. \<not> hexDist s d svgX svgY h < sizePx s * 0.9)
    | Some hex \<Rightarrow>
        hexDist s d svgX svgY hex < sizePx s * 0.9
        \<and> (\<forall>h \<in> set xs. hexDist s d svgX svgY hex \<le> hexDist s d svgX svgY h)
        \<and> (\<forall>c. closest = Some c \<longrightarrow> hexDist s d svgX svgY hex \<le> hexDist s d svgX svgY c)
        \<and> (closest = Some hex
            \<or> (\<exists>i < length xs. xs ! i = hex
                  \<and> (\<forall>j < i. hexDist s d svgX svgY hex < hexDist s d svgX svgY (xs ! j))
                  \<and> (\<forall>c. closest = Some c
                        \<longrightarrow> hexDist s d svgX svgY hex < hexDist s d svgX svgY c)))"
  using assms
proof (induction xs arbitrary: closest closestDist)
  case Nil
  then show ?case by auto
next
  case (Cons h xs)
  define D where "D = hexDist s d svgX svgY"
  define thr where "thr = sizePx s * 0.9"
  note inv = Cons.prems [folded D_def thr_def]
  show ?case
  proof (cases "D h < thr \<and> lessThanClosest (D h) closestDist")
    case True
    then have step: "findHexLoop s d svgX svgY (h # xs) closest closestDist
        = findHexLoop s d svgX svgY xs (Some h) (Some (D h))"
      by (simp add: D_def thr_def Let_def)
    have old: "D h < D c" if "closest = Some c" for c
      using inv True that by auto
    have "(Some h = None \<and> Some (D h) = None)
        \<or> (\<exists>c. Some h = Some c \<and> Some (D h) = Some (hexDist s d svgX svgY c)
              \<and> hexDist s d svgX svgY c < sizePx s * 0.9)"
      using True by (simp add: D_def thr_def)
    from Cons.IH [OF this] obtain hex where
      res: "findHexLoop s d svgX svgY xs (Some h) (Some (D h)) = Some hex"
      and r1: "D hex < thr"
      and r2: "\<forall>x \<in> set xs. D hex \<le> D x"
      and r3: "D hex \<le> D h"
      and r4: "h = hex \<or> (\<exists>i < length xs. xs ! i = hex \<and> (\<forall>j < i. D hex < D (xs ! j))
                    \<and> D hex < D h)"
      by (auto simp: D_def thr_def split: option.splits)
    have pos: "\<exists>i < length (h # xs). (h # xs) ! i = hex
        \<and> (\<forall>j < i. D hex < D ((h # xs) ! j)) \<and> (\<forall>c. closest = Some c \<longrightarrow> D hex < D c)"
      using r4
    proof
      assume "h = hex"
      then have "(h # xs) ! 0 = hex \<and> (\<forall>j < 0. D hex < D ((h # xs) ! j))
          \<and> (\<forall>c. closest = Some c \<longrightarrow> D hex < D c)"
        using old by auto
      then show ?thesis by blast
    next
      assume "\<exists>i < length xs. xs ! i = hex \<and> (\<forall>j < i. D hex < D (xs ! j)) \<and> D hex < D h"
      then obtain i where i: "i < length xs" "xs ! i = hex" "\<forall>j < i. D hex < D (xs ! j)"
        "D hex < D h"
        by blast
      have "\<forall>j < Suc i. D hex < D ((h # xs) ! j)"
        using i by (auto simp: nth_Cons')
      moreover have "\<forall>c. closest = Some c \<longrightarrow> D hex < D c"
        using old i(4) by fastforce
      ultimately have "Suc i < length (h # xs) \<and> (h # xs) ! Suc i = hex
          \<and> (\<forall>j < Suc i. D hex < D ((h # xs) ! j)) \<and> (\<forall>c. closest = Some c \<longrightarrow> D hex < D c)"
        using i by simp
      then show ?thesis by blast
    qed
    have "\<forall>c. closest = Some c \<longrightarrow> D hex \<le> D c"
      using old r3 by fastforce
    with r1 r2 r3 pos show ?thesis
      unfolding step res by (simp add: D_def thr_def)
  next
    case False
    then have step: "findHexLoop s d svgX svgY (h # xs) closest closestDist
        = findHexLoop s d svgX svgY xs closest closestDist"
      by (auto simp: D_def thr_def Let_def)
    show ?thesis
    proof (cases "findHexLoop s d svgX svgY xs closest closestDist")
      case None
      with Cons.IH [OF Cons.prems] have n: "closest = None"
        "\<forall>x \<in> set xs. \<not> D x < thr"
        by (simp_all add: D_def thr_def)
      then have "closestDist = None"
        using inv by auto
      with False have "\<not> D h < thr" by simp
      with n show ?thesis
        unfolding step None by (simp add: D_def thr_def)
    next
      case (Some hex)
      with Cons.IH [OF Cons.prems] have
        r1: "D hex < thr"
        and r2: "\<forall>x \<in> set xs. D hex \<le> D x"
        and r3: "\<forall>c. closest = Some c \<longrightarrow> D hex \<le> D c"
        and r4: "closest = Some hex \<or> (\<exists>i < length xs. xs ! i = hex
            \<and> (\<forall>j < i. D hex < D (xs ! j)) \<and> (\<forall>c. closest = Some c \<longrightarrow> D hex < D c))"
        by (simp_all add: D_def thr_def)
      have far: "thr \<le> D h \<or> (\<exists>c. closest = Some c \<and> D c \<le> D h)"
        using False inv by (cases closestDist) auto
      have le: "D hex \<le> D h"
        using far r1 r3 by fastforce
      have pos: "closest = Some hex \<or> (\<exists>i < length (h # xs). (h # xs) ! i = hex
          \<and> (\<forall>j < i. D hex < D ((h # xs) ! j)) \<and> (\<forall>c. closest = Some c \<longrightarrow> D hex < D c))"
        using r4
      proof
        assume "closest = Some hex"
        then show ?thesis by simp
      next
        assume "\<exists>i < length xs. xs ! i = hex
            \<and> (\<forall>j < i. D hex < D (xs ! j)) \<and> (\<forall>c. closest = Some c \<longrightarrow> D hex < D c)"
        then obtain i where i: "i < length xs" "xs ! i = hex" "\<forall>j < i. D hex < D (xs ! j)"
          "\<forall>c. closest = Some c \<longrightarrow> D hex < D c"
          by blast
        have "D hex < D h"
          using far r1 i(4) by fastforce
        then have "\<forall>j < Suc i. D hex < D ((h # xs) ! j)"
          using i by (auto simp: nth_Cons')
        then have "Suc i < length (h # xs) \<and> (h # xs) ! Suc i = hex
            \<and> (\<forall>j < Suc i. D hex < D ((h # xs) ! j)) \<and> (\<forall>c. closest = Some c \<longrightarrow> D hex < D c)"
          using i by simp
        then show ?thesis by blast
      qed
      from r1 r2 r3 le pos show ?thesis
        unfolding step Some by (simp add: D_def thr_def)
    qed
  qed
qed


lemma hexDist_nonneg: "0 \<le> hexDist s d x y h"
  by (simp add: hexDist_def split: prod.splits)

text \<open>
  The hit tester in terms of the distance its loop computes (\<open>hexDist\<close>) and of its
  threshold: none exactly when no tile is within the threshold; a tile it returns is
  within the threshold, at most as far as every tile of the map, and the first of the map
  at its distance.
\<close>

lemma findHexAtPoint_hexDist:
  "(data s = None \<longrightarrow> findHexAtPoint svgX svgY s = None)
   \<and> (data s = Some d \<longrightarrow>
        (findHexAtPoint svgX svgY s = None)
          = (\<forall>h \<in> set (md_map d). \<not> hexDist s d svgX svgY h < sizePx s * 0.9)
        \<and> (\<forall>hex. findHexAtPoint svgX svgY s = Some hex \<longrightarrow>
              hexDist s d svgX svgY hex < sizePx s * 0.9
              \<and> (\<forall>h \<in> set (md_map d). hexDist s d svgX svgY hex \<le> hexDist s d svgX svgY h)
              \<and> (\<exists>i < length (md_map d). md_map d ! i = hex
                    \<and> (\<forall>j < i. hexDist s d svgX svgY hex
                                  < hexDist s d svgX svgY (md_map d ! j)))))"
proof (intro conjI impI allI)
  assume "data s = None"
  then show "findHexAtPoint svgX svgY s = None"
    by (simp add: findHexAtPoint_def)
next
  assume d: "data s = Some d"
  have res: "case findHexLoop s d svgX svgY (md_map d) None None of
      None \<Rightarrow> (\<forall>h \<in> set (md_map d). \<not> hexDist s d svgX svgY h < sizePx s * 0.9)
    | Some hex \<Rightarrow>
        hexDist s d svgX svgY hex < sizePx s * 0.9
        \<and> (\<forall>h \<in> set (md_map d). hexDist s d svgX svgY hex \<le> hexDist s d svgX svgY h)
        \<and> (\<exists>i < length (md_map d). md_map d ! i = hex
              \<and> (\<forall>j < i. hexDist s d svgX svgY hex < hexDist s d svgX svgY (md_map d ! j)))"
    using findHexLoop_result [of None None s d svgX svgY "md_map d"]
    by (auto split: option.splits)
  have eq: "findHexAtPoint svgX svgY s = findHexLoop s d svgX svgY (md_map d) None None"
    using d by (simp add: findHexAtPoint_def)
  show "(findHexAtPoint svgX svgY s = None)
      = (\<forall>h \<in> set (md_map d). \<not> hexDist s d svgX svgY h < sizePx s * 0.9)"
  proof (cases "findHexLoop s d svgX svgY (md_map d) None None")
    case None
    with res show ?thesis by (simp add: eq)
  next
    case (Some hex)
    with res have "hexDist s d svgX svgY hex < sizePx s * 0.9" "hex \<in> set (md_map d)"
      by auto
    with Some show ?thesis by (auto simp: eq)
  qed
  fix hex
  assume "findHexAtPoint svgX svgY s = Some hex"
  then have loop: "findHexLoop s d svgX svgY (md_map d) None None = Some hex"
    by (simp add: eq)
  show "hexDist s d svgX svgY hex < sizePx s * 0.9"
    using res unfolding loop by simp
  show "\<forall>h \<in> set (md_map d). hexDist s d svgX svgY hex \<le> hexDist s d svgX svgY h"
    using res unfolding loop by simp
  show "\<exists>i < length (md_map d). md_map d ! i = hex
          \<and> (\<forall>j < i. hexDist s d svgX svgY hex < hexDist s d svgX svgY (md_map d ! j))"
    using res unfolding loop by simp
qed

text \<open>
  For a tile of the document, the distance the loop computes is the Euclidean distance to
  the tile's \<^verbatim>\<open>axialToPixel\<close> centre, and the threshold is \<open>0.9 \<times> hexSize \<times> 100\<close>.
\<close>

lemma maxR_Max:
  assumes "data s = Some d" and "md_map d \<noteq> []"
  shows "maxR s = Max (set (map hex_r (md_map d)))"
proof -
  from assms(2) obtain h hs where m: "md_map d = h # hs"
    by (cases "md_map d") auto
  have "Max (set (hex_r h # map hex_r hs)) = fold max (map hex_r hs) (hex_r h)"
    by (rule Max.set_eq_fold)
  with assms(1) m show ?thesis
    by (simp add: maxR_def)
qed

lemma hexDist_centreDistance:
  assumes "data s = Some d" and "h \<in> set (md_map d)"
  shows "hexDist s d px py h = centreDistance s d px py h"
proof -
  from assms(2) have "md_map d \<noteq> []"
    by auto
  then have mr: "maxR s = Max (set (map hex_r (md_map d)))"
    by (rule maxR_Max [OF assms(1)])
  have sz: "sizePx s = md_hexSize d * 100"
    using assms(1) by (simp add: sizePx_def)
  show ?thesis
    by (simp add: hexDist_def hexCentre_def mr sz split: prod.splits)
qed

lemma threshold_pixels:
  assumes "data s = Some d"
  shows "sizePx s * 0.9 = 0.9 * (md_hexSize d * 100)"
  using assms by (simp add: sizePx_def)

text \<open>
  Claim C4. Without a document the hit tester returns none. With a document it returns
  none exactly when no tile is within the threshold; and a tile it returns is within the
  threshold, is at most as far from the point as every tile of the map, and is the first
  tile of the map, in iteration order, at that minimal distance. The distance of a tile
  is the Euclidean distance from the point to the pixel centre that \<^verbatim>\<open>axialToPixel\<close>
  computes for the tile under the current layout (pixel size \<open>hexSize \<times> 100\<close>, the
  document's orientation, the three layout toggles, the greatest row as \<open>maxR\<close>), and the
  threshold is \<open>0.9\<close> times that pixel size, strictly.
\<close>

theorem findHexAtPoint_nearest:
  "(data s = None \<longrightarrow> findHexAtPoint svgX svgY s = None)
   \<and> (data s = Some d \<longrightarrow>
        (findHexAtPoint svgX svgY s = None)
          = (\<forall>h \<in> set (md_map d).
               \<not> centreDistance s d svgX svgY h < 0.9 * (md_hexSize d * 100))
        \<and> (\<forall>hex. findHexAtPoint svgX svgY s = Some hex \<longrightarrow>
              centreDistance s d svgX svgY hex < 0.9 * (md_hexSize d * 100)
              \<and> (\<forall>h \<in> set (md_map d).
                    centreDistance s d svgX svgY hex \<le> centreDistance s d svgX svgY h)
              \<and> (\<exists>i < length (md_map d). md_map d ! i = hex
                    \<and> (\<forall>j < i. centreDistance s d svgX svgY hex
                                  < centreDistance s d svgX svgY (md_map d ! j)))))"
proof (intro conjI impI allI)
  assume "data s = None"
  then show "findHexAtPoint svgX svgY s = None"
    by (simp add: findHexAtPoint_def)
next
  assume d: "data s = Some d"
  note loop = findHexAtPoint_hexDist [of s svgX svgY d, THEN conjunct2, rule_format, OF d]
  have dist: "hexDist s d svgX svgY h = centreDistance s d svgX svgY h"
    if "h \<in> set (md_map d)" for h
    using d that by (rule hexDist_centreDistance)
  have thr: "sizePx s * 0.9 = 0.9 * (md_hexSize d * 100)"
    using d by (rule threshold_pixels)
  have "(findHexAtPoint svgX svgY s = None)
      = (\<forall>h \<in> set (md_map d). \<not> hexDist s d svgX svgY h < sizePx s * 0.9)"
    using loop by blast
  also have "\<dots> = (\<forall>h \<in> set (md_map d).
      \<not> centreDistance s d svgX svgY h < 0.9 * (md_hexSize d * 100))"
    using dist unfolding thr by (intro ball_cong refl) simp
  finally show "(findHexAtPoint svgX svgY s = None)
      = (\<forall>h \<in> set (md_map d).
           \<not> centreDistance s d svgX svgY h < 0.9 * (md_hexSize d * 100))" .
  fix hex
  assume hit: "findHexAtPoint svgX svgY s = Some hex"
  from loop hit have within: "hexDist s d svgX svgY hex < sizePx s * 0.9"
    and least: "\<forall>h \<in> set (md_map d). hexDist s d svgX svgY hex \<le> hexDist s d svgX svgY h"
    and first: "\<exists>i < length (md_map d). md_map d ! i = hex
          \<and> (\<forall>j < i. hexDist s d svgX svgY hex < hexDist s d svgX svgY (md_map d ! j))"
    by blast+
  from first obtain i where i: "i < length (md_map d)" "md_map d ! i = hex"
    "\<forall>j < i. hexDist s d svgX svgY hex < hexDist s d svgX svgY (md_map d ! j)"
    by blast
  then have mem: "hex \<in> set (md_map d)"
    by (auto simp: in_set_conv_nth)
  show "centreDistance s d svgX svgY hex < 0.9 * (md_hexSize d * 100)"
    using within unfolding thr dist [OF mem] .
  show "\<forall>h \<in> set (md_map d).
      centreDistance s d svgX svgY hex \<le> centreDistance s d svgX svgY h"
  proof
    fix h
    assume h: "h \<in> set (md_map d)"
    with least have "hexDist s d svgX svgY hex \<le> hexDist s d svgX svgY h"
      by blast
    then show "centreDistance s d svgX svgY hex \<le> centreDistance s d svgX svgY h"
      unfolding dist [OF mem] dist [OF h] .
  qed
  have "\<forall>j < i. centreDistance s d svgX svgY hex < centreDistance s d svgX svgY (md_map d ! j)"
  proof (intro allI impI)
    fix j
    assume j: "j < i"
    with i(1) have hj: "md_map d ! j \<in> set (md_map d)"
      by simp
    from i(3) j have "hexDist s d svgX svgY hex < hexDist s d svgX svgY (md_map d ! j)"
      by blast
    then show "centreDistance s d svgX svgY hex < centreDistance s d svgX svgY (md_map d ! j)"
      unfolding dist [OF mem] dist [OF hj] .
  qed
  with i(1,2) show "\<exists>i < length (md_map d). md_map d ! i = hex
      \<and> (\<forall>j < i. centreDistance s d svgX svgY hex
                    < centreDistance s d svgX svgY (md_map d ! j))"
    by blast
qed

theorem findHexAtPoint_nearest_witness:
  "data initialEditor = None
   \<and> findHexAtPoint 0 0 initialEditor = None
   \<and> data (applyParsed exampleDoc initialEditor) = Some exampleDoc
   \<and> md_map exampleDoc = [hexA, hexB]
   \<and> 0.9 * (md_hexSize exampleDoc * 100) = 72
   \<and> centreDistance (applyParsed exampleDoc initialEditor) exampleDoc (80 * sqrt 3) 0 hexA
       = 80 * sqrt 3
   \<and> centreDistance (applyParsed exampleDoc initialEditor) exampleDoc (80 * sqrt 3) 0 hexB = 0
   \<and> findHexAtPoint (80 * sqrt 3) 0 (applyParsed exampleDoc initialEditor) = Some hexB
   \<and> centreDistance (applyParsed exampleDoc initialEditor) exampleDoc 0 0 hexA = 0
   \<and> findHexAtPoint 0 0 (applyParsed exampleDoc initialEditor) = Some hexA
   \<and> centreDistance (applyParsed exampleDoc initialEditor) exampleDoc 0 1000 hexA = 1000
   \<and> \<not> centreDistance (applyParsed exampleDoc initialEditor) exampleDoc 0 1000 hexB < 72
   \<and> findHexAtPoint 0 1000 (applyParsed exampleDoc initialEditor) = None"
proof -
  define s1 where "s1 = applyParsed exampleDoc initialEditor"
  have n: "data initialEditor = None"
    by (simp add: initialEditor_def)
  have d1: "data s1 = Some exampleDoc"
    by (simp add: s1_def applyParsed_def)
  have m: "md_map exampleDoc = [hexA, hexB]"
    by (simp add: exampleDoc_def)
  have thr: "0.9 * (md_hexSize exampleDoc * 100) = 72"
    by (simp add: exampleDoc_def)
  have layout: "rect s1" "stagger s1" "mirror s1"
    by (simp_all add: s1_def applyParsed_def initialEditor_def)
  have rows: "Max (hex_r ` set (md_map exampleDoc)) = 0"
    by (simp add: m hexA_def hexB_def)
  have doc: "md_hexSize exampleDoc * 100 = 80" "md_orientation exampleDoc = Pointy"
    by (simp_all add: exampleDoc_def)
  have cA: "axialToPixel (hex_q hexA) (hex_r hexA) 80 Pointy True True True 0 = (0, 0)"
    by (simp add: axialToPixel_def js_rem_2 hexA_def Let_def)
  have cB: "axialToPixel (hex_q hexB) (hex_r hexB) 80 Pointy True True True 0 = (80 * sqrt 3, 0)"
    by (simp add: axialToPixel_def js_rem_2 hexB_def Let_def SQRT3_def)
  have dA: "centreDistance s1 exampleDoc px py hexA = sqrt (px ^ 2 + py ^ 2)" for px py
    using layout by (simp add: rows doc cA)
  have dB: "centreDistance s1 exampleDoc px py hexB = sqrt ((px - 80 * sqrt 3) ^ 2 + py ^ 2)"
    for px py
    using layout by (simp add: rows doc cB)
  have pos: "(0::real) \<le> 80 * sqrt 3"
    by simp
  have big: "(72::real) < 80 * sqrt 3"
  proof -
    have "(1::real) < sqrt 3" by simp
    then have "(80::real) * 1 < 80 * sqrt 3"
      by (intro mult_strict_left_mono) simp_all
    then show ?thesis by linarith
  qed
  have sq: "sqrt ((80 * sqrt 3) ^ 2) = 80 * sqrt 3"
    using pos by (simp only: real_sqrt_abs abs_of_nonneg)
  have e1: "centreDistance s1 exampleDoc (80 * sqrt 3) 0 hexA = 80 * sqrt 3"
    unfolding dA by (simp only: power_zero_numeral add_0_right sq)
  have e2: "centreDistance s1 exampleDoc (80 * sqrt 3) 0 hexB = 0"
    unfolding dB by simp
  have e3: "centreDistance s1 exampleDoc 0 0 hexA = 0"
    unfolding dA by simp
  have e4: "centreDistance s1 exampleDoc 0 1000 hexA = 1000"
    unfolding dA by simp
  have e5: "\<not> centreDistance s1 exampleDoc 0 1000 hexB < 72"
  proof -
    have "sqrt (1000 ^ 2) \<le> sqrt ((0 - 80 * sqrt 3) ^ 2 + 1000 ^ 2)"
      by (rule real_sqrt_le_mono) simp
    then have "1000 \<le> centreDistance s1 exampleDoc 0 1000 hexB"
      unfolding dB by simp
    then show ?thesis by simp
  qed
  note T0 = findHexAtPoint_nearest [where s = initialEditor and svgX = 0 and svgY = 0
      and d = exampleDoc, THEN conjunct1, rule_format, OF n]
  have inA: "hexA \<in> set (md_map exampleDoc)" and inB: "hexB \<in> set (md_map exampleDoc)"
    by (simp_all add: m)
  have only: "h = hexA \<or> h = hexB" if "h \<in> set (md_map exampleDoc)" for h
    using that by (simp add: m)
  have e6: "centreDistance s1 exampleDoc 0 0 hexB = 80 * sqrt 3"
    unfolding dB by (simp only: diff_0 power2_minus power_zero_numeral add_0_right sq)
  note TB = findHexAtPoint_nearest [where s = s1 and svgX = "80 * sqrt 3" and svgY = 0
      and d = exampleDoc, THEN conjunct2, rule_format, OF d1]
  have hitB: "findHexAtPoint (80 * sqrt 3) 0 s1 = Some hexB"
  proof -
    have "centreDistance s1 exampleDoc (80 * sqrt 3) 0 hexB
        < 0.9 * (md_hexSize exampleDoc * 100)"
      unfolding e2 thr by simp
    with inB have "\<not> (\<forall>h \<in> set (md_map exampleDoc).
        \<not> centreDistance s1 exampleDoc (80 * sqrt 3) 0 h < 0.9 * (md_hexSize exampleDoc * 100))"
      by blast
    with TB [THEN conjunct1] have "findHexAtPoint (80 * sqrt 3) 0 s1 \<noteq> None"
      by blast
    then obtain hex where hit: "findHexAtPoint (80 * sqrt 3) 0 s1 = Some hex"
      by blast
    note R = TB [THEN conjunct2, rule_format, OF hit]
    from R obtain i where "i < length (md_map exampleDoc)" "md_map exampleDoc ! i = hex"
      by blast
    then have "hex \<in> set (md_map exampleDoc)"
      using nth_mem by blast
    then have cases: "hex = hexA \<or> hex = hexB"
      by (rule only)
    have le: "centreDistance s1 exampleDoc (80 * sqrt 3) 0 hex
        \<le> centreDistance s1 exampleDoc (80 * sqrt 3) 0 hexB"
      by (rule R [THEN conjunct2, THEN conjunct1, THEN bspec, OF inB])
    have "hex \<noteq> hexA"
    proof
      assume "hex = hexA"
      with le have "centreDistance s1 exampleDoc (80 * sqrt 3) 0 hexA
          \<le> centreDistance s1 exampleDoc (80 * sqrt 3) 0 hexB"
        by (simp only:)
      then have "80 * sqrt 3 \<le> (0::real)"
        unfolding e1 e2 .
      with big show False
        by linarith
    qed
    with cases hit show ?thesis
      by blast
  qed
  note TA = findHexAtPoint_nearest [where s = s1 and svgX = 0 and svgY = 0
      and d = exampleDoc, THEN conjunct2, rule_format, OF d1]
  have hitA: "findHexAtPoint 0 0 s1 = Some hexA"
  proof -
    have "centreDistance s1 exampleDoc 0 0 hexA < 0.9 * (md_hexSize exampleDoc * 100)"
      unfolding e3 thr by simp
    with inA have "\<not> (\<forall>h \<in> set (md_map exampleDoc).
        \<not> centreDistance s1 exampleDoc 0 0 h < 0.9 * (md_hexSize exampleDoc * 100))"
      by blast
    with TA [THEN conjunct1] have "findHexAtPoint 0 0 s1 \<noteq> None"
      by blast
    then obtain hex where hit: "findHexAtPoint 0 0 s1 = Some hex"
      by blast
    note R = TA [THEN conjunct2, rule_format, OF hit]
    from R obtain i where "i < length (md_map exampleDoc)" "md_map exampleDoc ! i = hex"
      by blast
    then have "hex \<in> set (md_map exampleDoc)"
      using nth_mem by blast
    then have cases: "hex = hexA \<or> hex = hexB"
      by (rule only)
    have le: "centreDistance s1 exampleDoc 0 0 hex \<le> centreDistance s1 exampleDoc 0 0 hexA"
      by (rule R [THEN conjunct2, THEN conjunct1, THEN bspec, OF inA])
    have "hex \<noteq> hexB"
    proof
      assume "hex = hexB"
      with le have "centreDistance s1 exampleDoc 0 0 hexB
          \<le> centreDistance s1 exampleDoc 0 0 hexA"
        by (simp only:)
      then have "80 * sqrt 3 \<le> (0::real)"
        unfolding e6 e3 .
      with big show False
        by linarith
    qed
    with cases hit show ?thesis
      by blast
  qed
  note TM = findHexAtPoint_nearest [where s = s1 and svgX = 0 and svgY = 1000
      and d = exampleDoc, THEN conjunct2, rule_format, OF d1]
  have miss: "findHexAtPoint 0 1000 s1 = None"
  proof -
    have farA: "\<not> centreDistance s1 exampleDoc 0 1000 hexA
        < 0.9 * (md_hexSize exampleDoc * 100)"
      unfolding e4 thr by simp
    have farB: "\<not> centreDistance s1 exampleDoc 0 1000 hexB
        < 0.9 * (md_hexSize exampleDoc * 100)"
      using e5 unfolding thr .
    have "\<forall>h \<in> set (md_map exampleDoc).
        \<not> centreDistance s1 exampleDoc 0 1000 h < 0.9 * (md_hexSize exampleDoc * 100)"
    proof
      fix h
      assume "h \<in> set (md_map exampleDoc)"
      then have "h = hexA \<or> h = hexB"
        by (rule only)
      with farA farB show "\<not> centreDistance s1 exampleDoc 0 1000 h
          < 0.9 * (md_hexSize exampleDoc * 100)"
        by blast
    qed
    with TM [THEN conjunct1] show ?thesis
      by blast
  qed
  note facts = n T0 d1 m thr e1 e2 hitB e3 hitA e4 e5 miss
  show ?thesis
    by (intro conjI) (rule facts [unfolded s1_def])+
qed

section \<open>Brush strokes\<close>

text \<open>
  The hit tester returns a tile of the document, and reads only the document and the
  layout toggles of the state.
\<close>

lemma findHexLoop_mem:
  "findHexLoop s d svgX svgY xs closest closestDist = Some hex
     \<Longrightarrow> closest = Some hex \<or> hex \<in> set xs"
  by (induction xs arbitrary: closest closestDist) (auto simp: Let_def split: if_splits)

lemma hexUnderPointer_mem:
  "hexUnderPointer e s = Some hex \<Longrightarrow> \<exists>d. data s = Some d \<and> hex \<in> set (md_map d)"
  by (auto simp: hexUnderPointer_def findHexAtPoint_def split: option.splits prod.splits
      dest: findHexLoop_mem)

lemma findHexLoop_layout:
  assumes "sizePx s' = sizePx s" and "\<And>h. hexDist s' d svgX svgY h = hexDist s d svgX svgY h"
  shows "findHexLoop s' d svgX svgY xs closest closestDist
     = findHexLoop s d svgX svgY xs closest closestDist"
  using assms by (induction xs arbitrary: closest closestDist) (simp_all add: Let_def)

lemma hexUnderPointer_layout:
  assumes "data s' = data s" and "rect s' = rect s" and "stagger s' = stagger s"
    and "mirror s' = mirror s"
  shows "hexUnderPointer e s' = hexUnderPointer e s"
proof -
  have sz: "sizePx s' = sizePx s" and mr: "maxR s' = maxR s"
    using assms by (simp_all add: sizePx_def maxR_def)
  have dist: "hexDist s' d svgX svgY h = hexDist s d svgX svgY h" for d svgX svgY h
    using assms sz mr by (simp add: hexDist_def hexCentre_def)
  have "findHexAtPoint x y s' = findHexAtPoint x y s" for x y
  proof (cases "data s")
    case None
    with assms(1) show ?thesis
      by (simp add: findHexAtPoint_def)
  next
    case (Some d)
    with assms(1) show ?thesis
      using findHexLoop_layout [of s' s d x y "md_map d" None None, OF sz dist]
      by (simp add: findHexAtPoint_def)
  qed
  then show ?thesis
    by (simp add: hexUnderPointer_def split: option.splits prod.splits)
qed

text \<open>One paint attempt: it is skipped, or it records the id and updates the document.\<close>

lemma paintHexWithBrush_skip:
  "hex_id hex \<in> paintedInStroke s \<or> matchesBrush hex s \<or> data s = None
     \<Longrightarrow> paintHexWithBrush hex s = s"
  by (auto simp: paintHexWithBrush_def matchesBrush_def)

lemma paintHexWithBrush_paint:
  assumes "data s \<noteq> None" and "hex_id hex \<notin> paintedInStroke s" and "\<not> matchesBrush hex s"
  shows "paintHexWithBrush hex s
     = s\<lparr>paintedInStroke := insert (hex_id hex) (paintedInStroke s),
         data := brushUpdater hex (brushTerrain s) (brushTier s) (data s)\<rparr>"
  using assms by (auto simp: paintHexWithBrush_def matchesBrush_def)

lemma paintHexWithBrush_frame:
  "isBrushPainting (paintHexWithBrush hex s) = isBrushPainting s"
  "isPanning (paintHexWithBrush hex s) = isPanning s"
  "isDragSelecting (paintHexWithBrush hex s) = isDragSelecting s"
  "brushEnabled (paintHexWithBrush hex s) = brushEnabled s"
  "brushTerrain (paintHexWithBrush hex s) = brushTerrain s"
  "brushTier (paintHexWithBrush hex s) = brushTier s"
  "editMode (paintHexWithBrush hex s) = editMode s"
  by (simp_all add: paintHexWithBrush_def)

lemma paintHexWithBrush_record_grows:
  "paintedInStroke s \<subseteq> paintedInStroke (paintHexWithBrush hex s)"
  by (auto simp: paintHexWithBrush_def)

lemma paintHexWithBrush_data_changed:
  assumes "data (paintHexWithBrush hex s) \<noteq> data s"
  shows "hex_id hex \<notin> paintedInStroke s"
    and "\<not> matchesBrush hex s"
    and "paintedInStroke (paintHexWithBrush hex s) = insert (hex_id hex) (paintedInStroke s)"
  using assms by (auto simp: paintHexWithBrush_def matchesBrush_def split: if_splits)

lemma map_fixed: "map f xs = xs \<Longrightarrow> x \<in> set xs \<Longrightarrow> f x = x"
  by (induction xs) auto

lemma brushUpdater_changes:
  assumes "prev = Some d" and "hex \<in> set (md_map d)"
    and "\<not> (hex_terrain hex = terrain \<and> hex_tier hex = tier)"
  shows "brushUpdater hex terrain tier prev \<noteq> prev"
proof
  assume eq: "brushUpdater hex terrain tier prev = prev"
  define f :: "Hex \<Rightarrow> Hex" where "f = (\<lambda>h. if hex_id h = hex_id hex
        then h\<lparr>hex_terrain := terrain, hex_tier := tier\<rparr> else h)"
  have "map_option md_map (brushUpdater hex terrain tier prev) = Some (map f (md_map d))"
    by (simp add: brushUpdater_def assms(1) f_def)
  with eq assms(1) have "map f (md_map d) = md_map d"
    by simp
  then have "f hex = hex"
    using assms(2) by (rule map_fixed)
  then have fixed: "hex\<lparr>hex_terrain := terrain, hex_tier := tier\<rparr> = hex"
    by (simp add: f_def)
  have "hex_terrain (hex\<lparr>hex_terrain := terrain, hex_tier := tier\<rparr>) = terrain"
    and "hex_tier (hex\<lparr>hex_terrain := terrain, hex_tier := tier\<rparr>) = tier"
    by simp_all
  with fixed have "hex_terrain hex = terrain \<and> hex_tier hex = tier"
    by simp
  with assms(3) show False by simp
qed

lemma paintedMatchBrush_paint:
  assumes "paintedMatchBrush s"
  shows "paintedMatchBrush (paintHexWithBrush hex s)"
proof (cases "hex_id hex \<in> paintedInStroke s \<or> matchesBrush hex s \<or> data s = None")
  case True
  then show ?thesis
    using assms by (simp add: paintHexWithBrush_skip)
next
  case False
  then obtain d where d: "data s = Some d"
    by auto
  from False have eq: "paintHexWithBrush hex s
     = s\<lparr>paintedInStroke := insert (hex_id hex) (paintedInStroke s),
         data := brushUpdater hex (brushTerrain s) (brushTier s) (data s)\<rparr>"
    by (simp add: paintHexWithBrush_paint)
  from assms d have inv: "\<forall>h \<in> set (md_map d). hex_id h \<notin> paintedInStroke s \<or> matchesBrush h s"
    by (simp add: paintedMatchBrush_def list_all_iff)
  show ?thesis
    unfolding eq using inv d
    by (auto simp: paintedMatchBrush_def brushUpdater_def list_all_iff matchesBrush_def)
qed

lemma idMatchesBrush_paint:
  assumes "idMatchesBrush i s" and "data s = Some d" and "hex \<in> set (md_map d)"
  shows "idMatchesBrush i (paintHexWithBrush hex s)"
    and "data (paintHexWithBrush hex s) \<noteq> data s \<Longrightarrow> hex_id hex \<noteq> i"
proof -
  from assms have all: "\<forall>h \<in> set (md_map d). hex_id h \<noteq> i \<or> matchesBrush h s"
    by (simp add: idMatchesBrush_def list_all_iff)
  show ne: "hex_id hex \<noteq> i" if "data (paintHexWithBrush hex s) \<noteq> data s"
    using paintHexWithBrush_data_changed(2) [OF that] all assms(3) by blast
  show "idMatchesBrush i (paintHexWithBrush hex s)"
  proof (cases "hex_id hex \<in> paintedInStroke s \<or> matchesBrush hex s \<or> data s = None")
    case True
    then show ?thesis
      using assms(1) by (simp add: paintHexWithBrush_skip)
  next
    case False
    then have eq: "paintHexWithBrush hex s
       = s\<lparr>paintedInStroke := insert (hex_id hex) (paintedInStroke s),
           data := brushUpdater hex (brushTerrain s) (brushTier s) (data s)\<rparr>"
      by (simp add: paintHexWithBrush_paint)
    show ?thesis
      unfolding eq using all assms(2)
      by (auto simp: idMatchesBrush_def brushUpdater_def list_all_iff matchesBrush_def)
  qed
qed

text \<open>
  The handlers in brush mode: a pointer-down with the brush enabled in terrain mode
  clears the record and attempts the tile under the pointer; a move attempts the tile
  under the pointer. Both keep the invariant and the brush's settings.
\<close>

lemma onMouseMove_brush:
  assumes "isBrushPainting t" and "brushEnabled t"
  shows "onMouseMove e t
     = (case hexUnderPointer e t of None \<Rightarrow> t | Some hex \<Rightarrow> paintHexWithBrush hex t)"
  using assms by (simp add: onMouseMove_def)

lemma onMouseDown_brush:
  assumes "button e = 0" and "brushEnabled s" and "editMode s = Terrain"
  shows "onMouseDown e s
     = (case hexUnderPointer e s of
          None \<Rightarrow> s\<lparr>isBrushPainting := True, isPanning := False,
                     isDragSelecting := False, paintedInStroke := {}\<rparr>
        | Some hex \<Rightarrow> paintHexWithBrush hex
                     (s\<lparr>isBrushPainting := True, isPanning := False,
                        isDragSelecting := False, paintedInStroke := {}\<rparr>))"
proof -
  have "hexUnderPointer e (s\<lparr>isBrushPainting := True, isPanning := False,
          isDragSelecting := False, paintedInStroke := {}\<rparr>) = hexUnderPointer e s"
    by (rule hexUnderPointer_layout) simp_all
  with assms show ?thesis
    by (simp add: onMouseDown_def Let_def)
qed

lemma brushStrokeState_cleared:
  assumes "brushEnabled s"
  shows "brushStrokeState (s\<lparr>isBrushPainting := True, isPanning := False,
          isDragSelecting := False, paintedInStroke := {}\<rparr>)"
  using assms
  by (simp add: brushStrokeState_def paintedMatchBrush_def list_all_iff split: option.splits)

lemma brushStrokeState_paint:
  "brushStrokeState t \<Longrightarrow> brushStrokeState (paintHexWithBrush hex t)"
  by (simp add: brushStrokeState_def paintHexWithBrush_frame paintedMatchBrush_paint)

lemma brushStrokeState_onMouseDown:
  assumes "button e = 0" and "brushEnabled s" and "editMode s = Terrain"
  shows "brushStrokeState (onMouseDown e s)"
  using brushStrokeState_cleared [OF assms(2)]
  by (simp add: onMouseDown_brush [OF assms] brushStrokeState_paint split: option.splits)

lemma brushStrokeState_onMouseMove:
  assumes "brushStrokeState t"
  shows "brushStrokeState (onMouseMove e t)"
proof -
  from assms have "isBrushPainting t" "brushEnabled t"
    by (simp_all add: brushStrokeState_def)
  then show ?thesis
    using assms by (simp add: onMouseMove_brush brushStrokeState_paint split: option.splits)
qed

lemma brushStrokeState_moves:
  "brushStrokeState t \<Longrightarrow> brushStrokeState (fold onMouseMove es t)"
  by (induction es arbitrary: t) (simp_all add: brushStrokeState_onMouseMove)

lemma brush_settings_onMouseMove:
  assumes "brushStrokeState t"
  shows "brushTerrain (onMouseMove e t) = brushTerrain t"
    and "brushTier (onMouseMove e t) = brushTier t"
proof -
  from assms have "isBrushPainting t" "brushEnabled t"
    by (simp_all add: brushStrokeState_def)
  then show "brushTerrain (onMouseMove e t) = brushTerrain t"
    and "brushTier (onMouseMove e t) = brushTier t"
    by (simp_all add: onMouseMove_brush paintHexWithBrush_frame split: option.splits)
qed

lemma brush_settings_moves:
  "brushStrokeState t \<Longrightarrow> brushTerrain (fold onMouseMove es t) = brushTerrain t
     \<and> brushTier (fold onMouseMove es t) = brushTier t"
  by (induction es arbitrary: t)
     (simp_all add: brushStrokeState_onMouseMove brush_settings_onMouseMove)

lemma brush_settings_onMouseDown:
  assumes "button e = 0" and "brushEnabled s" and "editMode s = Terrain"
  shows "brushTerrain (onMouseDown e s) = brushTerrain s"
    and "brushTier (onMouseDown e s) = brushTier s"
  by (simp_all add: onMouseDown_brush [OF assms] paintHexWithBrush_frame split: option.splits)

text \<open>One attempt inside a brush stroke.\<close>

lemma brush_attempt:
  assumes st: "brushStrokeState t" and hit: "hexUnderPointer e t = Some hex"
  shows "matchesBrush hex t \<Longrightarrow> onMouseMove e t = t"
    and "hex_id hex \<in> paintedInStroke t \<Longrightarrow> onMouseMove e t = t"
    and "\<not> matchesBrush hex t \<Longrightarrow> hex_id hex \<notin> paintedInStroke t"
    and "\<not> matchesBrush hex t \<Longrightarrow>
           paintedInStroke (onMouseMove e t) = insert (hex_id hex) (paintedInStroke t)"
    and "\<not> matchesBrush hex t \<Longrightarrow>
           data (onMouseMove e t) = brushUpdater hex (brushTerrain t) (brushTier t) (data t)"
    and "\<not> matchesBrush hex t \<Longrightarrow> data (onMouseMove e t) \<noteq> data t"
proof -
  from st have flags: "isBrushPainting t" "brushEnabled t" and inv: "paintedMatchBrush t"
    by (simp_all add: brushStrokeState_def)
  have move: "onMouseMove e t = paintHexWithBrush hex t"
    using flags hit by (simp add: onMouseMove_brush)
  from hexUnderPointer_mem [OF hit] obtain d where d: "data t = Some d" "hex \<in> set (md_map d)"
    by blast
  show "onMouseMove e t = t" if "matchesBrush hex t"
    using that by (simp add: move paintHexWithBrush_skip)
  show "onMouseMove e t = t" if "hex_id hex \<in> paintedInStroke t"
    using that by (simp add: move paintHexWithBrush_skip)
  show fresh: "hex_id hex \<notin> paintedInStroke t" if "\<not> matchesBrush hex t"
    using inv d that by (auto simp: paintedMatchBrush_def list_all_iff)
  have painted: "paintHexWithBrush hex t
       = t\<lparr>paintedInStroke := insert (hex_id hex) (paintedInStroke t),
           data := brushUpdater hex (brushTerrain t) (brushTier t) (data t)\<rparr>"
    if "\<not> matchesBrush hex t"
    using that fresh d by (simp add: paintHexWithBrush_paint)
  show "paintedInStroke (onMouseMove e t) = insert (hex_id hex) (paintedInStroke t)"
    if "\<not> matchesBrush hex t"
    using painted [OF that] by (simp add: move)
  show upd: "data (onMouseMove e t) = brushUpdater hex (brushTerrain t) (brushTier t) (data t)"
    if "\<not> matchesBrush hex t"
    using painted [OF that] by (simp add: move)
  show "data (onMouseMove e t) \<noteq> data t" if "\<not> matchesBrush hex t"
    using brushUpdater_changes [OF d(1) d(2), of "brushTerrain t" "brushTier t"] that
    by (simp add: upd matchesBrush_def)
qed

lemma brush_miss:
  assumes "brushStrokeState t" and "hexUnderPointer e t = None"
  shows "onMouseMove e t = t"
  using assms by (simp add: brushStrokeState_def onMouseMove_brush)

text \<open>
  The log of a brush stroke: no id occurs twice, no id of the painted record occurs, and
  an id whose tiles all carry the brush's values does not occur.
\<close>

lemma paintLog_moves:
  "brushStrokeState t \<Longrightarrow>
     distinct (paintLog (map PointerMove es) t)
     \<and> set (paintLog (map PointerMove es) t) \<inter> paintedInStroke t = {}"
proof (induction es arbitrary: t)
  case Nil
  then show ?case by simp
next
  case (Cons e es)
  from Cons.prems have flags: "isBrushPainting t" "brushEnabled t"
    by (simp_all add: brushStrokeState_def)
  show ?case
  proof (cases "hexUnderPointer e t")
    case None
    then have "onMouseMove e t = t"
      using Cons.prems by (simp add: brush_miss)
    then show ?thesis
      using Cons.IH [OF Cons.prems] by simp
  next
    case (Some hex)
    define t' where "t' = paintHexWithBrush hex t"
    have move: "onMouseMove e t = t'"
      using flags Some by (simp add: onMouseMove_brush t'_def)
    have st': "brushStrokeState t'"
      using Cons.prems by (simp add: t'_def brushStrokeState_paint)
    note ih = Cons.IH [OF st']
    have grows: "paintedInStroke t \<subseteq> paintedInStroke t'"
      by (simp add: t'_def paintHexWithBrush_record_grows)
    show ?thesis
    proof (cases "data t' \<noteq> data t")
      case True
      then have fresh: "hex_id hex \<notin> paintedInStroke t"
        and rec: "paintedInStroke t' = insert (hex_id hex) (paintedInStroke t)"
        using paintHexWithBrush_data_changed [of hex t] by (simp_all add: t'_def)
      have log: "paintLog (map PointerMove (e # es)) t
          = hex_id hex # paintLog (map PointerMove es) t'"
        using True Some by (simp add: move)
      from ih rec have "hex_id hex \<notin> set (paintLog (map PointerMove es) t')"
        by auto
      with ih fresh grows show ?thesis
        unfolding log by auto
    next
      case False
      then have log: "paintLog (map PointerMove (e # es)) t = paintLog (map PointerMove es) t'"
        by (simp add: move)
      from ih grows show ?thesis
        unfolding log by auto
    qed
  qed
qed

lemma paintLog_moves_untouched:
  "brushStrokeState t \<Longrightarrow> idMatchesBrush i t \<Longrightarrow> i \<notin> set (paintLog (map PointerMove es) t)"
proof (induction es arbitrary: t)
  case Nil
  then show ?case by simp
next
  case (Cons e es)
  from Cons.prems have flags: "isBrushPainting t" "brushEnabled t"
    by (simp_all add: brushStrokeState_def)
  show ?case
  proof (cases "hexUnderPointer e t")
    case None
    then have "onMouseMove e t = t"
      using Cons.prems by (simp add: brush_miss)
    then show ?thesis
      using Cons.IH [OF Cons.prems] by simp
  next
    case (Some hex)
    define t' where "t' = paintHexWithBrush hex t"
    have move: "onMouseMove e t = t'"
      using flags Some by (simp add: onMouseMove_brush t'_def)
    have st': "brushStrokeState t'"
      using Cons.prems by (simp add: t'_def brushStrokeState_paint)
    from hexUnderPointer_mem [OF Some] obtain d where d: "data t = Some d" "hex \<in> set (md_map d)"
      by blast
    have keep: "idMatchesBrush i t'"
      unfolding t'_def by (rule idMatchesBrush_paint(1) [OF Cons.prems(2) d])
    have ne: "hex_id hex \<noteq> i" if "data t' \<noteq> data t"
      using idMatchesBrush_paint(2) [OF Cons.prems(2) d] that by (simp add: t'_def)
    note ih = Cons.IH [OF st' keep]
    show ?thesis
    proof (cases "data t' \<noteq> data t")
      case True
      then have "paintLog (map PointerMove (e # es)) t
          = hex_id hex # paintLog (map PointerMove es) t'"
        using Some by (simp add: move)
      with ih ne [OF True] show ?thesis
        by auto
    next
      case False
      then have "paintLog (map PointerMove (e # es)) t = paintLog (map PointerMove es) t'"
        by (simp add: move)
      with ih show ?thesis
        by simp
    qed
  qed
qed

lemma idMatchesBrush_cleared:
  "idMatchesBrush i (s\<lparr>isBrushPainting := True, isPanning := False,
      isDragSelecting := False, paintedInStroke := {}\<rparr>) = idMatchesBrush i s"
  by (simp add: idMatchesBrush_def matchesBrush_def split: option.splits)

lemma paintLog_stroke:
  assumes "button e0 = 0" and "brushEnabled s" and "editMode s = Terrain"
  shows "distinct (paintLog (PointerDown e0 # map PointerMove es) s)"
    and "idMatchesBrush i s \<Longrightarrow> i \<notin> set (paintLog (PointerDown e0 # map PointerMove es) s)"
proof -
  define s1 where "s1 = s\<lparr>isBrushPainting := True, isPanning := False,
      isDragSelecting := False, paintedInStroke := {}\<rparr>"
  define t0 where "t0 = onMouseDown e0 s"
  have st0: "brushStrokeState t0"
    unfolding t0_def by (rule brushStrokeState_onMouseDown [OF assms])
  note moves = paintLog_moves [OF st0, of es]
  have down: "t0 = (case hexUnderPointer e0 s of None \<Rightarrow> s1 | Some hex \<Rightarrow> paintHexWithBrush hex s1)"
    unfolding t0_def s1_def by (rule onMouseDown_brush [OF assms])
  have s1: "data s1 = data s" "paintedInStroke s1 = {}"
    by (simp_all add: s1_def)
  show "distinct (paintLog (PointerDown e0 # map PointerMove es) s)"
  proof (cases "hexUnderPointer e0 s")
    case None
    with down s1 have "data t0 = data s" by simp
    with moves show ?thesis
      by (simp add: t0_def)
  next
    case (Some hex)
    with down have t0: "t0 = paintHexWithBrush hex s1" by simp
    show ?thesis
    proof (cases "data t0 \<noteq> data s")
      case True
      then have "paintedInStroke t0 = insert (hex_id hex) (paintedInStroke s1)"
        using paintHexWithBrush_data_changed(3) [of hex s1] s1 by (simp add: t0)
      with moves have "hex_id hex \<notin> set (paintLog (map PointerMove es) t0)"
        by auto
      with moves True Some show ?thesis
        by (simp add: t0_def)
    next
      case False
      with moves show ?thesis
        by (simp add: t0_def)
    qed
  qed
  show "i \<notin> set (paintLog (PointerDown e0 # map PointerMove es) s)" if m: "idMatchesBrush i s"
  proof (cases "hexUnderPointer e0 s")
    case None
    with down have t0: "t0 = s1" by simp
    then have "idMatchesBrush i t0"
      using m by (simp add: s1_def idMatchesBrush_cleared)
    from paintLog_moves_untouched [OF st0 this, of es] None t0 s1 show ?thesis
      by (simp add: t0_def)
  next
    case (Some hex)
    with down have t0: "t0 = paintHexWithBrush hex s1" by simp
    from hexUnderPointer_mem [OF Some] obtain d where d: "data s = Some d" "hex \<in> set (md_map d)"
      by blast
    have m1: "idMatchesBrush i s1"
      using m by (simp add: s1_def idMatchesBrush_cleared)
    have d1: "data s1 = Some d"
      using d s1 by simp
    have keep: "idMatchesBrush i t0"
      unfolding t0 by (rule idMatchesBrush_paint(1) [OF m1 d1 d(2)])
    have ne: "hex_id hex \<noteq> i" if "data t0 \<noteq> data s"
      using idMatchesBrush_paint(2) [OF m1 d1 d(2)] that s1 by (simp add: t0)
    note rest = paintLog_moves_untouched [OF st0 keep, of es]
    show ?thesis
    proof (cases "data t0 \<noteq> data s")
      case True
      then have "paintLog (PointerDown e0 # map PointerMove es) s
          = hex_id hex # paintLog (map PointerMove es) t0"
        using Some by (simp add: t0_def)
      with rest ne [OF True] show ?thesis
        by auto
    next
      case False
      then have "paintLog (PointerDown e0 # map PointerMove es) s
          = paintLog (map PointerMove es) t0"
        by (simp add: t0_def)
      with rest show ?thesis
        by simp
    qed
  qed
qed

text \<open>A tile at the origin of a two-tile document on row \<open>0\<close> is hit at the point \<open>(0, 0)\<close>.\<close>

lemma hexUnderPointer_origin:
  assumes "svgPoint e = Some (0, 0)" and "data s = Some d" and "md_map d = [a, b]"
    and "hex_q a = 0" and "hex_r a = 0" and "hex_r b = 0" and "0 < md_hexSize d"
  shows "hexUnderPointer e s = Some a"
proof -
  have mr: "maxR s = 0"
    using assms by (simp add: maxR_def)
  have sz: "0 < sizePx s"
    using assms by (simp add: sizePx_def)
  have "hexCentre s d a = (0, 0)"
    using assms mr by (simp add: hexCentre_def axialToPixel_def js_rem_2 Let_def)
  then have da: "hexDist s d 0 0 a = 0"
    by (simp add: hexDist_def)
  have db: "\<not> hexDist s d 0 0 b < 0"
    using hexDist_nonneg [of s d 0 0 b] by simp
  have "findHexAtPoint 0 0 s = Some a"
    using assms(2,3) da db sz by (simp add: findHexAtPoint_def Let_def)
  with assms(1) show ?thesis
    by (simp add: hexUnderPointer_def)
qed

text \<open>
  Claim C2. A brush stroke is a pointer-down with the left button while the brush is
  enabled in terrain mode, followed by any sequence of pointer-moves; \<open>t\<close> is the state
  after them, at which a further paint attempt \<open>e\<close> arrives. The brush's configured terrain
  and tier are those of the pointer-down. If the tile under the pointer already carries
  them, the attempt changes nothing: the document is not mutated and the id is not added
  to the painted record. Otherwise the id is not yet in the record, the attempt puts it
  there and the document becomes the one in which the tile carries the brush's values (a
  different document). An attempt on an id of the record is skipped. So the log of the
  stroke's mutations holds no id twice, and does not hold an id whose tiles carried the
  brush's values when the stroke began. The pointer-down starts from an empty record, and
  the pointer-up empties it again.
\<close>

theorem brush_stroke_one_mutation_per_tile:
  assumes "button e0 = 0" and "brushEnabled s" and "editMode s = Terrain"
    and "t = fold onMouseMove es (onMouseDown e0 s)"
  shows "brushTerrain t = brushTerrain s \<and> brushTier t = brushTier s
    \<and> (\<forall>hex. hexUnderPointer e t = Some hex \<longrightarrow>
          (matchesBrush hex t \<longrightarrow> onMouseMove e t = t)
        \<and> (\<not> matchesBrush hex t \<longrightarrow>
              hex_id hex \<notin> paintedInStroke t
            \<and> paintedInStroke (onMouseMove e t) = insert (hex_id hex) (paintedInStroke t)
            \<and> data (onMouseMove e t) = brushUpdater hex (brushTerrain t) (brushTier t) (data t)
            \<and> data (onMouseMove e t) \<noteq> data t)
        \<and> (hex_id hex \<in> paintedInStroke t \<longrightarrow> onMouseMove e t = t))
    \<and> (hexUnderPointer e t = None \<longrightarrow> onMouseMove e t = t)
    \<and> distinct (paintLog (PointerDown e0 # map PointerMove es) s)
    \<and> (idMatchesBrush i s \<longrightarrow> i \<notin> set (paintLog (PointerDown e0 # map PointerMove es) s))
    \<and> paintedInStroke (onMouseUp t) = {}
    \<and> (case hexUnderPointer e0 s of
          None \<Rightarrow> paintedInStroke (onMouseDown e0 s) = {} \<and> data (onMouseDown e0 s) = data s
        | Some hex \<Rightarrow>
            if matchesBrush hex s
            then paintedInStroke (onMouseDown e0 s) = {} \<and> data (onMouseDown e0 s) = data s
            else paintedInStroke (onMouseDown e0 s) = {hex_id hex}
               \<and> data (onMouseDown e0 s)
                   = brushUpdater hex (brushTerrain s) (brushTier s) (data s)
               \<and> data (onMouseDown e0 s) \<noteq> data s)"
proof -
  note start = assms(1-3)
  have st0: "brushStrokeState (onMouseDown e0 s)"
    by (rule brushStrokeState_onMouseDown [OF start])
  have st: "brushStrokeState t"
    unfolding assms(4) by (rule brushStrokeState_moves [OF st0])
  have settings: "brushTerrain t = brushTerrain s \<and> brushTier t = brushTier s"
    using brush_settings_moves [OF st0, of es] brush_settings_onMouseDown [OF start]
    by (simp add: assms(4))
  have attempt: "\<forall>hex. hexUnderPointer e t = Some hex \<longrightarrow>
          (matchesBrush hex t \<longrightarrow> onMouseMove e t = t)
        \<and> (\<not> matchesBrush hex t \<longrightarrow>
              hex_id hex \<notin> paintedInStroke t
            \<and> paintedInStroke (onMouseMove e t) = insert (hex_id hex) (paintedInStroke t)
            \<and> data (onMouseMove e t) = brushUpdater hex (brushTerrain t) (brushTier t) (data t)
            \<and> data (onMouseMove e t) \<noteq> data t)
        \<and> (hex_id hex \<in> paintedInStroke t \<longrightarrow> onMouseMove e t = t)"
    using brush_attempt [OF st] by blast
  have miss: "hexUnderPointer e t = None \<longrightarrow> onMouseMove e t = t"
    using brush_miss [OF st] by blast
  have up: "paintedInStroke (onMouseUp t) = {}"
    by (simp add: onMouseUp_def)
  define s1 where "s1 = s\<lparr>isBrushPainting := True, isPanning := False,
      isDragSelecting := False, paintedInStroke := {}\<rparr>"
  have down: "onMouseDown e0 s
      = (case hexUnderPointer e0 s of None \<Rightarrow> s1 | Some hex \<Rightarrow> paintHexWithBrush hex s1)"
    unfolding s1_def by (rule onMouseDown_brush [OF start])
  have first: "case hexUnderPointer e0 s of
          None \<Rightarrow> paintedInStroke (onMouseDown e0 s) = {} \<and> data (onMouseDown e0 s) = data s
        | Some hex \<Rightarrow>
            if matchesBrush hex s
            then paintedInStroke (onMouseDown e0 s) = {} \<and> data (onMouseDown e0 s) = data s
            else paintedInStroke (onMouseDown e0 s) = {hex_id hex}
               \<and> data (onMouseDown e0 s)
                   = brushUpdater hex (brushTerrain s) (brushTier s) (data s)
               \<and> data (onMouseDown e0 s) \<noteq> data s"
  proof (cases "hexUnderPointer e0 s")
    case None
    then show ?thesis
      by (simp add: down s1_def)
  next
    case (Some hex)
    from hexUnderPointer_mem [OF Some] obtain d where d: "data s = Some d" "hex \<in> set (md_map d)"
      by blast
    have m: "matchesBrush hex s1 = matchesBrush hex s"
      by (simp add: matchesBrush_def s1_def)
    show ?thesis
    proof (cases "matchesBrush hex s")
      case True
      then have "paintHexWithBrush hex s1 = s1"
        by (simp add: paintHexWithBrush_skip m)
      with Some True show ?thesis
        by (simp add: down s1_def)
    next
      case False
      then have nm: "\<not> matchesBrush hex s1"
        by (simp add: m)
      have "data s1 \<noteq> None" and "hex_id hex \<notin> paintedInStroke s1"
        using d by (simp_all add: s1_def)
      then have "paintHexWithBrush hex s1
         = s1\<lparr>paintedInStroke := insert (hex_id hex) (paintedInStroke s1),
              data := brushUpdater hex (brushTerrain s1) (brushTier s1) (data s1)\<rparr>"
        using nm by (rule paintHexWithBrush_paint)
      moreover have "brushUpdater hex (brushTerrain s) (brushTier s) (data s) \<noteq> data s"
        using brushUpdater_changes [OF d(1) d(2), of "brushTerrain s" "brushTier s"] False
        by (simp add: matchesBrush_def)
      ultimately show ?thesis
        using Some False by (simp add: down s1_def)
    qed
  qed
  from settings attempt miss up first paintLog_stroke(1) [OF start, of es]
    paintLog_stroke(2) [OF start, of i es]
  show ?thesis
    by blast
qed

theorem brush_stroke_one_mutation_per_tile_witness:
  "button plainClick = 0 \<and> brushEnabled brushExample \<and> editMode brushExample = Terrain
   \<and> hexUnderPointer plainClick brushExample = Some hexA
   \<and> \<not> matchesBrush hexA brushExample
   \<and> paintedInStroke (onMouseDown plainClick brushExample) = {''hex_0_0''}
   \<and> data (onMouseDown plainClick brushExample)
       = Some (exampleDoc\<lparr>md_map := [hexA_painted, hexB]\<rparr>)
   \<and> hexUnderPointer plainClick
         (fold onMouseMove [plainClick] (onMouseDown plainClick brushExample))
       = Some hexA_painted
   \<and> onMouseMove plainClick
         (fold onMouseMove [plainClick] (onMouseDown plainClick brushExample))
       = fold onMouseMove [plainClick] (onMouseDown plainClick brushExample)
   \<and> idMatchesBrush ''hex_1_0'' brushExample
   \<and> ''hex_1_0'' \<notin> set (paintLog (PointerDown plainClick # map PointerMove [plainClick])
         brushExample)
   \<and> distinct (paintLog (PointerDown plainClick # map PointerMove [plainClick]) brushExample)
   \<and> hexUnderPointer plainClick (onMouseDown offCanvas brushExample) = Some hexA
   \<and> paintedInStroke (onMouseMove plainClick (onMouseDown offCanvas brushExample))
       = {''hex_0_0''}
   \<and> paintedInStroke (onMouseUp (onMouseMove plainClick (onMouseDown offCanvas brushExample)))
       = {}"
proof -
  have h1: "button plainClick = 0" and h1': "button offCanvas = 0"
    by (simp_all add: plainClick_def offCanvas_def)
  have h2: "brushEnabled brushExample" and h3: "editMode brushExample = Terrain"
    by (simp_all add: brushExample_def applyParsed_def)
  have pt: "svgPoint plainClick = Some (0, 0)"
    by (simp add: plainClick_def)
  have d0: "data brushExample = Some exampleDoc"
    by (simp add: brushExample_def applyParsed_def)
  have hit0: "hexUnderPointer plainClick brushExample = Some hexA"
    by (rule hexUnderPointer_origin [OF pt d0, where b = hexB])
       (simp_all add: exampleDoc_def hexA_def hexB_def)
  have nm: "\<not> matchesBrush hexA brushExample"
    by (simp add: matchesBrush_def brushExample_def hexA_def)
  have tiles: "md_map exampleDoc = [hexA, hexB]"
    by (simp add: exampleDoc_def)
  have "hex_id hexA \<noteq> ''hex_1_0''" and "matchesBrush hexB brushExample"
    by (simp_all add: matchesBrush_def brushExample_def hexA_def hexB_def)
  then have idm: "idMatchesBrush ''hex_1_0'' brushExample"
    by (simp add: idMatchesBrush_def d0 tiles)
  have bt: "brushTerrain brushExample = ''water''" "brushTier brushExample = 0"
    by (simp_all add: brushExample_def)
  have upd: "brushUpdater hexA (brushTerrain brushExample) (brushTier brushExample)
        (data brushExample) = Some (exampleDoc\<lparr>md_map := [hexA_painted, hexB]\<rparr>)"
    by (simp add: d0 bt brushUpdater_def exampleDoc_def hexA_painted_def hexA_def hexB_def)
  define tA0 where "tA0 = onMouseDown plainClick brushExample"
  define tA where "tA = fold onMouseMove [plainClick] tA0"
  note A = brush_stroke_one_mutation_per_tile [OF h1 h2 h3,
      where es = "[plainClick]" and t = tA and e = plainClick and i = "''hex_1_0''",
      folded tA0_def, OF tA_def]
  note A_settings = conjI [OF A [THEN conjunct1] A [THEN conjunct2, THEN conjunct1]]
  note A_attempt = A [THEN conjunct2, THEN conjunct2, THEN conjunct1]
  note A_distinct = A [THEN conjunct2, THEN conjunct2, THEN conjunct2, THEN conjunct2,
      THEN conjunct1]
  note A_untouched = A [THEN conjunct2, THEN conjunct2, THEN conjunct2, THEN conjunct2,
      THEN conjunct2, THEN conjunct1]
  note A_first = A [THEN conjunct2, THEN conjunct2, THEN conjunct2, THEN conjunct2,
      THEN conjunct2, THEN conjunct2, THEN conjunct2]
  have rec0: "paintedInStroke tA0 = {hex_id hexA}"
    and doc0: "data tA0
      = brushUpdater hexA (brushTerrain brushExample) (brushTier brushExample) (data brushExample)"
    using A_first nm unfolding hit0 by simp_all
  have rec0': "paintedInStroke tA0 = {''hex_0_0''}"
    using rec0 by (simp add: hexA_def)
  have doc0': "data tA0 = Some (exampleDoc\<lparr>md_map := [hexA_painted, hexB]\<rparr>)"
    using doc0 upd by simp
  have hitA0: "hexUnderPointer plainClick tA0 = Some hexA_painted"
    by (rule hexUnderPointer_origin [OF pt doc0', where b = hexB])
       (simp_all add: exampleDoc_def hexA_painted_def hexA_def hexB_def)
  have stA0: "brushStrokeState tA0"
    unfolding tA0_def by (rule brushStrokeState_onMouseDown [OF h1 h2 h3])
  have "matchesBrush hexA_painted tA0"
    using brush_settings_onMouseDown [OF h1 h2 h3]
    by (simp add: matchesBrush_def tA0_def hexA_painted_def brushExample_def)
  then have same: "tA = tA0"
    using brush_attempt(1) [OF stA0 hitA0] by (simp add: tA_def)
  have hitA: "hexUnderPointer plainClick tA = Some hexA_painted"
    using hitA0 same by simp
  have mA: "matchesBrush hexA_painted tA"
    using A_settings by (simp add: matchesBrush_def hexA_painted_def brushExample_def)
  from A_attempt hitA mA have stay: "onMouseMove plainClick tA = tA"
    by blast
  from A_untouched A_distinct idm have log: "''hex_1_0'' \<notin> set (paintLog (PointerDown plainClick
        # map PointerMove [plainClick]) brushExample)"
    and dis: "distinct (paintLog (PointerDown plainClick # map PointerMove [plainClick])
        brushExample)"
    by blast+
  define tB where "tB = onMouseDown offCanvas brushExample"
  have tB_fold: "tB = fold onMouseMove [] (onMouseDown offCanvas brushExample)"
    by (simp add: tB_def)
  note B = brush_stroke_one_mutation_per_tile [OF h1' h2 h3 tB_fold,
      where e = plainClick and i = "''hex_1_0''"]
  have missB: "hexUnderPointer offCanvas brushExample = None"
    by (simp add: hexUnderPointer_def offCanvas_def)
  note B_settings = conjI [OF B [THEN conjunct1] B [THEN conjunct2, THEN conjunct1]]
  note B_attempt = B [THEN conjunct2, THEN conjunct2, THEN conjunct1]
  note B_first = B [THEN conjunct2, THEN conjunct2, THEN conjunct2, THEN conjunct2,
      THEN conjunct2, THEN conjunct2, THEN conjunct2]
  have recB: "paintedInStroke tB = {}" and docB: "data tB = data brushExample"
    using B_first unfolding missB by (simp_all add: tB_def)
  have hitB: "hexUnderPointer plainClick tB = Some hexA"
    by (rule hexUnderPointer_origin [OF pt, where d = exampleDoc and b = hexB])
       (simp_all add: docB d0 exampleDoc_def hexA_def hexB_def)
  have nmB: "\<not> matchesBrush hexA tB"
    using B_settings by (simp add: matchesBrush_def brushExample_def hexA_def)
  from B_attempt hitB nmB have "paintedInStroke (onMouseMove plainClick tB)
      = insert (hex_id hexA) (paintedInStroke tB)"
    by blast
  then have recB': "paintedInStroke (onMouseMove plainClick tB) = {''hex_0_0''}"
    by (simp add: recB hexA_def)
  have up: "paintedInStroke (onMouseUp (onMouseMove plainClick tB)) = {}"
    by (simp add: onMouseUp_def)
  note facts = h1 h2 h3 hit0 nm rec0' doc0' hitA stay idm log dis hitB recB' up
  show ?thesis
    by (intro conjI) (rule facts [unfolded tA_def tA0_def tB_def])+
qed

section \<open>Stroke modes\<close>

text \<open>
  The three flags \<^verbatim>\<open>isPanning\<close>, \<^verbatim>\<open>isBrushPainting\<close> and \<^verbatim>\<open>isDragSelecting\<close>: a pointer-down
  with the left button sets exactly one of them, and no pointer-move and no click on the
  brush button changes them.
\<close>

lemma onMouseMove_flags:
  "isBrushPainting (onMouseMove e t) = isBrushPainting t"
  "isDragSelecting (onMouseMove e t) = isDragSelecting t"
  "isPanning (onMouseMove e t) = isPanning t"
  by (simp_all add: onMouseMove_def paintHexWithBrush_frame split: option.splits)

lemma dispatch_flags_during:
  assumes "duringStroke ev"
  shows "isBrushPainting (dispatch ev t) = isBrushPainting t"
    and "isDragSelecting (dispatch ev t) = isDragSelecting t"
    and "isPanning (dispatch ev t) = isPanning t"
  using assms by (cases ev; simp add: onMouseMove_flags toggleBrush_def)+

lemma fold_dispatch_flags_during:
  "list_all duringStroke evs \<Longrightarrow>
     isBrushPainting (fold dispatch evs t) = isBrushPainting t
     \<and> isDragSelecting (fold dispatch evs t) = isDragSelecting t
     \<and> isPanning (fold dispatch evs t) = isPanning t"
  by (induction evs arbitrary: t) (simp_all add: dispatch_flags_during)

lemma onMouseDown_flags:
  assumes "button e = 0"
  shows "isBrushPainting (onMouseDown e s) = (brushEnabled s \<and> editMode s = Terrain)"
    and "isDragSelecting (onMouseDown e s)
      = (\<not> (brushEnabled s \<and> editMode s = Terrain)
         \<and> (ctrlKey e \<or> metaKey e) \<and> editMode s = Terrain)"
    and "isPanning (onMouseDown e s)
      = (\<not> (brushEnabled s \<and> editMode s = Terrain)
         \<and> \<not> ((ctrlKey e \<or> metaKey e) \<and> editMode s = Terrain))"
  using assms
  by (auto simp: onMouseDown_def Let_def paintHexWithBrush_frame split: option.splits)

lemma activeModes_onMouseDown:
  "button e = 0 \<Longrightarrow> activeModes (onMouseDown e s) = 1"
  unfolding activeModes_def by (simp add: onMouseDown_flags)

lemma activeModes_dispatch:
  "activeModes s \<le> 1 \<Longrightarrow> activeModes (dispatch ev s) \<le> 1"
proof (cases ev)
  case (PointerDown e)
  assume le: "activeModes s \<le> 1"
  show ?thesis
  proof (cases "button e = 0")
    case True
    then show ?thesis
      by (simp add: PointerDown activeModes_onMouseDown)
  next
    case False
    then have "onMouseDown e s = s"
      by (simp add: onMouseDown_def)
    with le show ?thesis
      by (simp add: PointerDown)
  qed
next
  case (PointerMove e)
  assume "activeModes s \<le> 1"
  then show ?thesis
    by (simp add: PointerMove activeModes_def onMouseMove_flags)
next
  case PointerUp
  then show ?thesis
    by (simp add: activeModes_def onMouseUp_def)
next
  case BrushButton
  assume "activeModes s \<le> 1"
  then show ?thesis
    by (simp add: BrushButton activeModes_def toggleBrush_def)
qed

lemma activeModes_fold_dispatch:
  "activeModes s \<le> 1 \<Longrightarrow> activeModes (fold dispatch evs s) \<le> 1"
proof (induction evs arbitrary: s)
  case Nil
  then show ?case by simp
next
  case (Cons ev evs)
  from Cons.prems have "activeModes (dispatch ev s) \<le> 1"
    by (rule activeModes_dispatch)
  then have "activeModes (fold dispatch evs (dispatch ev s)) \<le> 1"
    by (rule Cons.IH)
  then show ?case by simp
qed

lemma onMouseMove_by_mode:
  assumes "activeModes t \<le> 1"
  shows "onMouseMove e t =
     (if isBrushPainting t then
        (if brushEnabled t
         then (case hexUnderPointer e t of None \<Rightarrow> t | Some hex \<Rightarrow> paintHexWithBrush hex t)
         else t)
      else if isDragSelecting t then
        (if ctrlKey e \<or> metaKey e
         then (case hexUnderPointer e t of
                 None \<Rightarrow> t
               | Some hex \<Rightarrow>
                   t\<lparr>selectedMultiple := insert (hex_id hex) (selectedMultiple t),
                     selected := Some hex\<rparr>)
         else t)
      else if isPanning t
      then t\<lparr>offset := (clientX e - fst (start t), clientY e - snd (start t))\<rparr>
      else t)"
proof -
  have one: "\<not> (isBrushPainting t \<and> isDragSelecting t)"
    "\<not> (isBrushPainting t \<and> isPanning t)" "\<not> (isDragSelecting t \<and> isPanning t)"
    using assms by (auto simp: activeModes_def split: if_splits)
  have ins: "(if x \<in> A then A else insert x A) = insert x A" for x :: string and A
    by auto
  show ?thesis
    using one by (auto simp: onMouseMove_def ins split: option.splits)
qed


text \<open>
  Claim C9, as stated: modifier keys and brush enablement are read at pointer-down only,
  so changing them before the pointer-up does not change what the remaining moves do. It
  fails. In a stroke begun with the modifier held (drag-select), a move over the first
  tile selects it when the modifier is still held and does nothing when it has been
  released. In a stroke begun with the brush enabled, a move over a tile that differs
  from the brush paints it, and does nothing once the brush has been switched off.
\<close>

theorem stroke_mode_counterexample:
  "isDragSelecting (onMouseDown ctrlClick (applyParsed exampleDoc initialEditor))
   \<and> selectedMultiple (onMouseMove ctrlClick
         (onMouseDown ctrlClick (applyParsed exampleDoc initialEditor))) = {''hex_0_0''}
   \<and> onMouseMove plainClick (onMouseDown ctrlClick (applyParsed exampleDoc initialEditor))
       = onMouseDown ctrlClick (applyParsed exampleDoc initialEditor)
   \<and> selectedMultiple (onMouseMove plainClick
         (onMouseDown ctrlClick (applyParsed exampleDoc initialEditor))) = {}
   \<and> isBrushPainting (onMouseDown offCanvas brushExample)
   \<and> data (onMouseMove plainClick (onMouseDown offCanvas brushExample))
       \<noteq> data (onMouseDown offCanvas brushExample)
   \<and> data (onMouseMove plainClick (toggleBrush (onMouseDown offCanvas brushExample)))
       = data (onMouseDown offCanvas brushExample)"
proof -
  define s0 where "s0 = applyParsed exampleDoc initialEditor"
  define s1 where "s1 = onMouseDown ctrlClick s0"
  have s1: "s1 = s0\<lparr>isDragSelecting := True, isPanning := False, isBrushPainting := False\<rparr>"
    by (simp add: s1_def s0_def onMouseDown_def ctrlClick_def plainClick_def applyParsed_def
        initialEditor_def)
  have flags: "isDragSelecting s1" "\<not> isBrushPainting s1" "\<not> isPanning s1"
    "selectedMultiple s1 = {}"
    by (simp_all add: s1 s0_def applyParsed_def initialEditor_def)
  have pt: "svgPoint ctrlClick = Some (0, 0)"
    by (simp add: ctrlClick_def plainClick_def)
  have d1: "data s1 = Some exampleDoc"
    by (simp add: s1 s0_def applyParsed_def)
  have hit: "hexUnderPointer ctrlClick s1 = Some hexA"
    by (rule hexUnderPointer_origin [OF pt d1, where b = hexB])
       (simp_all add: exampleDoc_def hexA_def hexB_def)
  have c1: "selectedMultiple (onMouseMove ctrlClick s1) = {''hex_0_0''}"
    using flags hit by (simp add: onMouseMove_def ctrlClick_def hexA_def)
  have c2: "onMouseMove plainClick s1 = s1"
    using flags by (simp add: onMouseMove_def plainClick_def)
  have c3: "selectedMultiple (onMouseMove plainClick s1) = {}"
    using c2 flags by simp
  define t where "t = onMouseDown offCanvas brushExample"
  have h1: "button offCanvas = 0"
    by (simp add: offCanvas_def plainClick_def)
  have h2: "brushEnabled brushExample" and h3: "editMode brushExample = Terrain"
    by (simp_all add: brushExample_def applyParsed_def)
  have st: "brushStrokeState t"
    unfolding t_def by (rule brushStrokeState_onMouseDown [OF h1 h2 h3])
  have miss: "hexUnderPointer offCanvas brushExample = None"
    by (simp add: hexUnderPointer_def offCanvas_def)
  have t: "t = brushExample\<lparr>isBrushPainting := True, isPanning := False,
                     isDragSelecting := False, paintedInStroke := {}\<rparr>"
    using onMouseDown_brush [OF h1 h2 h3] miss by (simp add: t_def)
  have dt: "data t = Some exampleDoc"
    by (simp add: t brushExample_def applyParsed_def)
  have pt': "svgPoint plainClick = Some (0, 0)"
    by (simp add: plainClick_def)
  have hit': "hexUnderPointer plainClick t = Some hexA"
    by (rule hexUnderPointer_origin [OF pt' dt, where b = hexB])
       (simp_all add: exampleDoc_def hexA_def hexB_def)
  have nm: "\<not> matchesBrush hexA t"
    by (simp add: matchesBrush_def t brushExample_def hexA_def)
  have c4: "isBrushPainting t"
    using st by (simp add: brushStrokeState_def)
  have c5: "data (onMouseMove plainClick t) \<noteq> data t"
    by (rule brush_attempt(6) [OF st hit' nm])
  have "\<not> brushEnabled (toggleBrush t)" "\<not> isDragSelecting (toggleBrush t)"
    "\<not> isPanning (toggleBrush t)"
    using h2 by (simp_all add: toggleBrush_def t)
  then have "onMouseMove plainClick (toggleBrush t) = toggleBrush t"
    by (simp add: onMouseMove_def)
  then have c6: "data (onMouseMove plainClick (toggleBrush t)) = data t"
    by (simp add: toggleBrush_def)
  note facts = flags(1) c1 c2 c3 c4 c5 c6
  show ?thesis
    by (intro conjI) (rule facts [unfolded s1_def s0_def t_def])+
qed

text \<open>
  Claim C9, amended. At every instant at most one of the three stroke modes is active:
  none is at the start, and no event makes a second one active. A pointer-down with the
  left button activates exactly one, chosen from the brush-enabled flag, the modifier
  keys and the edit mode at that moment, and the moves and brush-button clicks that
  follow leave that choice as it is. A pointer-move acts in the active mode only, and in
  two of the modes under a condition it reads at the move: in brush mode it paints the
  tile under the pointer if the brush is still enabled and else does nothing; in
  drag-select mode it adds the tile under the pointer if a modifier key is held at that
  move and else does nothing; in pan mode it sets the offset. A move never acts in a mode
  other than the active one.
\<close>

theorem stroke_mode_fixed_at_pointer_down:
  "activeModes initialEditor = 0
   \<and> (activeModes s0 \<le> 1 \<longrightarrow> activeModes (fold dispatch evs0 s0) \<le> 1)
   \<and> (button e = 0 \<and> list_all duringStroke evs \<longrightarrow>
        isBrushPainting (fold dispatch evs (onMouseDown e s))
          = (brushEnabled s \<and> editMode s = Terrain)
      \<and> isDragSelecting (fold dispatch evs (onMouseDown e s))
          = (\<not> (brushEnabled s \<and> editMode s = Terrain)
             \<and> (ctrlKey e \<or> metaKey e) \<and> editMode s = Terrain)
      \<and> isPanning (fold dispatch evs (onMouseDown e s))
          = (\<not> (brushEnabled s \<and> editMode s = Terrain)
             \<and> \<not> ((ctrlKey e \<or> metaKey e) \<and> editMode s = Terrain))
      \<and> activeModes (fold dispatch evs (onMouseDown e s)) = 1)
   \<and> (activeModes t \<le> 1 \<longrightarrow>
        onMouseMove e' t =
          (if isBrushPainting t then
             (if brushEnabled t
              then (case hexUnderPointer e' t of
                      None \<Rightarrow> t
                    | Some hex \<Rightarrow> paintHexWithBrush hex t)
              else t)
           else if isDragSelecting t then
             (if ctrlKey e' \<or> metaKey e'
              then (case hexUnderPointer e' t of
                      None \<Rightarrow> t
                    | Some hex \<Rightarrow>
                        t\<lparr>selectedMultiple := insert (hex_id hex) (selectedMultiple t),
                          selected := Some hex\<rparr>)
              else t)
           else if isPanning t
           then t\<lparr>offset := (clientX e' - fst (start t), clientY e' - snd (start t))\<rparr>
           else t))"
proof (intro conjI impI)
  show "activeModes initialEditor = 0"
    by (simp add: activeModes_def initialEditor_def)
next
  assume "activeModes s0 \<le> 1"
  then show "activeModes (fold dispatch evs0 s0) \<le> 1"
    by (rule activeModes_fold_dispatch)
next
  assume a: "button e = 0 \<and> list_all duringStroke evs"
  then have b: "button e = 0" and during: "list_all duringStroke evs"
    by simp_all
  note keep = fold_dispatch_flags_during [OF during, of "onMouseDown e s"]
  show "isBrushPainting (fold dispatch evs (onMouseDown e s))
      = (brushEnabled s \<and> editMode s = Terrain)"
    using keep onMouseDown_flags(1) [OF b, of s] by simp
  show "isDragSelecting (fold dispatch evs (onMouseDown e s))
      = (\<not> (brushEnabled s \<and> editMode s = Terrain)
         \<and> (ctrlKey e \<or> metaKey e) \<and> editMode s = Terrain)"
    using keep onMouseDown_flags(2) [OF b, of s] by simp
  show "isPanning (fold dispatch evs (onMouseDown e s))
      = (\<not> (brushEnabled s \<and> editMode s = Terrain)
         \<and> \<not> ((ctrlKey e \<or> metaKey e) \<and> editMode s = Terrain))"
    using keep onMouseDown_flags(3) [OF b, of s] by simp
  show "activeModes (fold dispatch evs (onMouseDown e s)) = 1"
    using keep activeModes_onMouseDown [OF b, of s] by (simp add: activeModes_def)
next
  assume "activeModes t \<le> 1"
  then show "onMouseMove e' t =
          (if isBrushPainting t then
             (if brushEnabled t
              then (case hexUnderPointer e' t of
                      None \<Rightarrow> t
                    | Some hex \<Rightarrow> paintHexWithBrush hex t)
              else t)
           else if isDragSelecting t then
             (if ctrlKey e' \<or> metaKey e'
              then (case hexUnderPointer e' t of
                      None \<Rightarrow> t
                    | Some hex \<Rightarrow>
                        t\<lparr>selectedMultiple := insert (hex_id hex) (selectedMultiple t),
                          selected := Some hex\<rparr>)
              else t)
           else if isPanning t
           then t\<lparr>offset := (clientX e' - fst (start t), clientY e' - snd (start t))\<rparr>
           else t)"
    by (rule onMouseMove_by_mode)
qed

theorem stroke_mode_fixed_at_pointer_down_witness:
  "activeModes initialEditor \<le> 1
   \<and> activeModes (fold dispatch [PointerDown ctrlClick, PointerMove plainClick, PointerUp]
         initialEditor) \<le> 1
   \<and> button ctrlClick = 0
   \<and> list_all duringStroke [PointerMove plainClick, BrushButton, PointerMove ctrlClick]
   \<and> isDragSelecting (fold dispatch [PointerMove plainClick, BrushButton, PointerMove ctrlClick]
         (onMouseDown ctrlClick (applyParsed exampleDoc initialEditor)))
   \<and> \<not> isBrushPainting (fold dispatch [PointerMove plainClick, BrushButton, PointerMove ctrlClick]
         (onMouseDown ctrlClick (applyParsed exampleDoc initialEditor)))
   \<and> \<not> isPanning (fold dispatch [PointerMove plainClick, BrushButton, PointerMove ctrlClick]
         (onMouseDown ctrlClick (applyParsed exampleDoc initialEditor)))
   \<and> activeModes (fold dispatch [PointerMove plainClick, BrushButton, PointerMove ctrlClick]
         (onMouseDown ctrlClick (applyParsed exampleDoc initialEditor))) = 1
   \<and> activeModes (onMouseDown ctrlClick (applyParsed exampleDoc initialEditor)) \<le> 1
   \<and> onMouseMove plainClick (onMouseDown ctrlClick (applyParsed exampleDoc initialEditor))
       = onMouseDown ctrlClick (applyParsed exampleDoc initialEditor)"
proof -
  define s where "s = applyParsed exampleDoc initialEditor"
  define t where "t = onMouseDown ctrlClick s"
  define evs where "evs = [PointerMove plainClick, BrushButton, PointerMove ctrlClick]"
  define evs0 where "evs0 = [PointerDown ctrlClick, PointerMove plainClick, PointerUp]"
  note T = stroke_mode_fixed_at_pointer_down [where ?s0.0 = initialEditor and ?evs0.0 = evs0
      and e = ctrlClick and s = s and evs = evs and t = t and e' = plainClick]
  note T1 = T [THEN conjunct1]
  note T2 = T [THEN conjunct2, THEN conjunct1]
  note T3 = T [THEN conjunct2, THEN conjunct2, THEN conjunct1]
  note T4 = T [THEN conjunct2, THEN conjunct2, THEN conjunct2]
  have w1: "activeModes initialEditor \<le> 1"
    using T1 by simp
  have w2: "activeModes (fold dispatch evs0 initialEditor) \<le> 1"
    using T2 w1 by blast
  have w3: "button ctrlClick = 0"
    by (simp add: ctrlClick_def plainClick_def)
  have w4: "list_all duringStroke evs"
    by (simp add: evs_def)
  have cfg: "\<not> brushEnabled s" "editMode s = Terrain" "ctrlKey ctrlClick"
    by (simp_all add: s_def applyParsed_def initialEditor_def ctrlClick_def)
  from T3 w3 w4 have flags:
    "isBrushPainting (fold dispatch evs (onMouseDown ctrlClick s))
       = (brushEnabled s \<and> editMode s = Terrain)"
    "isDragSelecting (fold dispatch evs (onMouseDown ctrlClick s))
       = (\<not> (brushEnabled s \<and> editMode s = Terrain)
          \<and> (ctrlKey ctrlClick \<or> metaKey ctrlClick) \<and> editMode s = Terrain)"
    "isPanning (fold dispatch evs (onMouseDown ctrlClick s))
       = (\<not> (brushEnabled s \<and> editMode s = Terrain)
          \<and> \<not> ((ctrlKey ctrlClick \<or> metaKey ctrlClick) \<and> editMode s = Terrain))"
    "activeModes (fold dispatch evs (onMouseDown ctrlClick s)) = 1"
    by blast+
  have w5: "isDragSelecting (fold dispatch evs (onMouseDown ctrlClick s))"
    and w6: "\<not> isBrushPainting (fold dispatch evs (onMouseDown ctrlClick s))"
    and w7: "\<not> isPanning (fold dispatch evs (onMouseDown ctrlClick s))"
    using cfg by (simp_all add: flags(1-3))
  have w9: "activeModes t \<le> 1"
    unfolding t_def by (simp add: activeModes_onMouseDown [OF w3])
  have tf: "\<not> isBrushPainting t" "isDragSelecting t"
    using cfg by (simp_all add: t_def onMouseDown_flags [OF w3])
  have nomod: "\<not> (ctrlKey plainClick \<or> metaKey plainClick)"
    by (simp add: plainClick_def)
  from T4 w9 have "onMouseMove plainClick t =
          (if isBrushPainting t then
             (if brushEnabled t
              then (case hexUnderPointer plainClick t of
                      None \<Rightarrow> t
                    | Some hex \<Rightarrow> paintHexWithBrush hex t)
              else t)
           else if isDragSelecting t then
             (if ctrlKey plainClick \<or> metaKey plainClick
              then (case hexUnderPointer plainClick t of
                      None \<Rightarrow> t
                    | Some hex \<Rightarrow>
                        t\<lparr>selectedMultiple := insert (hex_id hex) (selectedMultiple t),
                          selected := Some hex\<rparr>)
              else t)
           else if isPanning t
           then t\<lparr>offset := (clientX plainClick - fst (start t),
                             clientY plainClick - snd (start t))\<rparr>
           else t)"
    by blast
  then have w10: "onMouseMove plainClick t = t"
    using tf nomod by simp
  note facts = w1 w2 w3 w4 w5 w6 w7 flags(4) w9 w10
  show ?thesis
    by (intro conjI) (rule facts [unfolded t_def s_def evs_def evs0_def])+
qed

end
